theory Spec2Isabelle
  imports Main "HOL-Library.Sublist"
begin

section \<open>Strings as the scripts use them\<close>

text \<open>
  Python strings are modelled as \<^typ>\<open>string\<close>: lists of characters with code points
  below 256.  The string methods the scripts call (\<^verbatim>\<open>endswith\<close>, \<^verbatim>\<open>startswith\<close>,
  \<^verbatim>\<open>in\<close>, \<^verbatim>\<open>index\<close>, \<^verbatim>\<open>strip\<close>, \<^verbatim>\<open>split\<close>, \<^verbatim>\<open>replace\<close>) and the regular
  expressions of \<^verbatim>\<open>extract_xlf.py\<close> are written out below.
\<close>

definition endswith :: "string \<Rightarrow> string \<Rightarrow> bool" where
  "endswith s suf = suffix suf s"

definition startswith :: "string \<Rightarrow> string \<Rightarrow> bool" where
  "startswith s pre = prefix pre s"

text \<open>\<^verbatim>\<open>sub in s\<close>: \<open>sub\<close> occurs as a contiguous substring of \<open>s\<close>.\<close>

definition contains :: "string \<Rightarrow> string \<Rightarrow> bool" where
  "contains sub s = sublist sub s"

text \<open>\<^verbatim>\<open>s.index(c)\<close>: the position of the first \<open>c\<close>; \<open>None\<close> where Python raises ValueError.\<close>

fun index_of :: "char \<Rightarrow> string \<Rightarrow> nat option" where
  "index_of c [] = None"
| "index_of c (x # xs) =
     (if x = c then Some 0 else map_option Suc (index_of c xs))"

text \<open>
  \<^verbatim>\<open>str.isspace\<close> on one character, for the code points below 256: tab, line feed,
  vertical tab, form feed, carriage return, the separators 28 to 31, space, NEL and the
  no-break space.
\<close>

definition isspace :: "char \<Rightarrow> bool" where
  "isspace c =
     (let n = (of_char c :: nat)
      in (9 \<le> n \<and> n \<le> 13) \<or> (28 \<le> n \<and> n \<le> 32) \<or> n = 133 \<or> n = 160)"

definition strip :: "string \<Rightarrow> string" where
  "strip s = rev (dropWhile isspace (rev (dropWhile isspace s)))"

text \<open>
  \<^verbatim>\<open>s.split(sep)\<close> with a one-character separator: the pieces between the separators,
  so the empty string gives one empty piece.
\<close>

fun split :: "char \<Rightarrow> string \<Rightarrow> string list" where
  "split sep [] = [[]]"
| "split sep (c # cs) =
     (if c = sep then [] # split sep cs
      else (case split sep cs of
              [] \<Rightarrow> [[c]]
            | p # ps \<Rightarrow> (c # p) # ps))"

text \<open>
  \<^verbatim>\<open>s.replace(old, new)\<close> for a non-empty \<open>old\<close>: the non-overlapping occurrences
  are replaced from the left.
\<close>

function replace :: "string \<Rightarrow> string \<Rightarrow> string \<Rightarrow> string" where
  "replace old new [] = []"
| "replace old new (c # cs) =
     (if old \<noteq> [] \<and> prefix old (c # cs)
      then new @ replace old new (drop (length old) (c # cs))
      else c # replace old new cs)"
  by pat_completeness auto
termination
  by (relation "measure (\<lambda>(old, new, s). length s)") auto

text \<open>\<^verbatim>\<open>\d\<close> on one character (below code point 256 only the ASCII digits are digits).\<close>

definition isdigit :: "char \<Rightarrow> bool" where
  "isdigit c = (let n = (of_char c :: nat) in 48 \<le> n \<and> n \<le> 57)"

text \<open>
  \<^verbatim>\<open>re.compile(suf + '$').search(s)\<close> for a literal \<open>suf\<close>: \<^verbatim>\<open>$\<close> matches at the end
  of the string and also just before a line feed that ends the string.
\<close>

definition search_suffix :: "string \<Rightarrow> string \<Rightarrow> bool" where
  "search_suffix suf s = (suffix suf s \<or> suffix (suf @ [CHR 0x0A]) s)"

text \<open>
  \<^verbatim>\<open>re.compile(r'_Qs_\d+_Q$').search(s)\<close>, read from the end of the string: \<^verbatim>\<open>_Q\<close>,
  before it a non-empty run of digits, before that \<^verbatim>\<open>_Qs_\<close>.
\<close>

definition ends_Qs_Q :: "string \<Rightarrow> bool" where
  "ends_Qs_Q s =
     (suffix ''_Q'' s \<and>
      (let r = drop 2 (rev s)
       in takeWhile isdigit r \<noteq> [] \<and> prefix (rev ''_Qs_'') (dropWhile isdigit r)))"

definition search_Qs_Q :: "string \<Rightarrow> bool" where
  "search_Qs_Q s = (ends_Qs_Q s \<or> (s \<noteq> [] \<and> last s = CHR 0x0A \<and> ends_Qs_Q (butlast s)))"

section \<open>The element tree of \<^verbatim>\<open>xml.etree.ElementTree\<close>\<close>

text \<open>
  An element has a tag (\<^verbatim>\<open>{uri}local\<close> when it is in a namespace), its attributes, the
  text before its first child, its children in document order and the text after its
  end tag.  \<open>etext\<close> and \<open>etail\<close> are \<open>None\<close> where ElementTree has \<^verbatim>\<open>None\<close>.
\<close>

datatype element =
  Element (tag: string) (attrib: "(string \<times> string) list") (etext: "string option")
    (children: "element list") (etail: "string option")

text \<open>\<^verbatim>\<open>elem.get(key)\<close> and \<^verbatim>\<open>elem.get(key, default)\<close>.\<close>

definition get :: "element \<Rightarrow> string \<Rightarrow> string option" where
  "get e k = map_of (attrib e) k"

definition get_default :: "element \<Rightarrow> string \<Rightarrow> string \<Rightarrow> string" where
  "get_default e k d = (case map_of (attrib e) k of None \<Rightarrow> d | Some v \<Rightarrow> v)"

text \<open>\<^verbatim>\<open>elem.iter()\<close>: the element and all its descendants, in document order.\<close>

fun iter :: "element \<Rightarrow> element list" where
  "iter (Element t a x cs y) = Element t a x cs y # concat (map iter cs)"

text \<open>
  \<^verbatim>\<open>elem.findall('.//t')\<close>: the descendants of the element (itself excluded) whose tag
  is \<open>t\<close>, in document order; \<^verbatim>\<open>elem.find('t')\<close>: the first direct child whose tag is \<open>t\<close>.
\<close>

definition findall_desc :: "element \<Rightarrow> string \<Rightarrow> element list" where
  "findall_desc e t = filter (\<lambda>d. tag d = t) (concat (map iter (children e)))"

definition find_child :: "element \<Rightarrow> string \<Rightarrow> element option" where
  "find_child e t = List.find (\<lambda>c. tag c = t) (children e)"

text \<open>\<^verbatim>\<open>''.join(elem.itertext())\<close>: all text under the element, in document order.\<close>

fun itertext :: "element \<Rightarrow> string" where
  "itertext (Element t a x cs y) =
     (case x of None \<Rightarrow> [] | Some s \<Rightarrow> s) @
     concat (map (\<lambda>c. itertext c @ (case etail c of None \<Rightarrow> [] | Some s \<Rightarrow> s)) cs)"

definition extract_text :: "element option \<Rightarrow> string" where
  "extract_text element =
     (case element of None \<Rightarrow> '''' | Some e \<Rightarrow> strip (itertext e))"

text \<open>
  What stops a script: \<open>ParseFailure\<close> is an exception of \<^verbatim>\<open>ET.parse\<close> (the script
  exits), \<open>ValueError\<close> the one \<^verbatim>\<open>root.tag.index('}')\<close> raises on a tag that opens a
  brace and never closes it.
\<close>

datatype failure = ParseFailure | ValueError

text \<open>
  The namespace detection every script but one starts with: the prefix \<^verbatim>\<open>xliff\<close> is
  bound to the URI of the root's tag when the root is in a namespace.  The result is
  the pair of \<^verbatim>\<open>namespaces['xliff']\<close> and \<^verbatim>\<open>use_ns\<close>.
\<close>

definition detect_ns :: "string \<Rightarrow> element \<Rightarrow> failure + (string \<times> bool)" where
  "detect_ns default_uri root =
     (if startswith (tag root) ''{''
      then (case index_of CHR ''}'' (tag root) of
              None \<Rightarrow> Inl ValueError
            | Some i \<Rightarrow> Inr (take (i - 1) (drop 1 (tag root)), True))
      else Inr (default_uri, False))"

text \<open>The tag a path step \<^verbatim>\<open>xliff:local\<close> (with the namespaces) or \<^verbatim>\<open>local\<close> looks for.\<close>

definition path_tag :: "string \<Rightarrow> bool \<Rightarrow> string \<Rightarrow> string" where
  "path_tag ns use_ns local = (if use_ns then ''{'' @ ns @ ''}'' @ local else local)"

section \<open>\<^verbatim>\<open>compare_xlf.py\<close>: resolving a snapshot\<close>

text \<open>The dictionary \<^verbatim>\<open>group_data\<close> that \<^verbatim>\<open>parse_xlf_file\<close> fills for each group.\<close>

record group_data =
  abbr :: string
  name_source :: string
  name_target :: string
  name_target_state :: string
  desc_source :: string
  desc_target :: string
  desc_target_state :: string

definition empty_group_data :: group_data where
  "empty_group_data =
     \<lparr>abbr = '''', name_source = '''', name_target = '''', name_target_state = '''',
      desc_source = '''', desc_target = '''', desc_target_state = ''''\<rparr>"

text \<open>A group is a semantic domain group when the tag of a direct child contains \<^verbatim>\<open>guid\<close>.\<close>

definition has_guid :: "element \<Rightarrow> bool" where
  "has_guid grp = list_ex (\<lambda>child. contains ''guid'' (tag child)) (children grp)"

definition target_groups :: "string \<Rightarrow> bool \<Rightarrow> element \<Rightarrow> element list" where
  "target_groups ns use_ns root =
     filter has_guid (findall_desc root (path_tag ns use_ns ''group''))"

text \<open>
  The loop that gathers a group's translation units (\<^verbatim>\<open>compare_xlf.py\<close> lines 76 to 92,
  and with the same text \<^verbatim>\<open>extract_xlf.py\<close> lines 135 to 151): one step per direct
  child, the list \<^verbatim>\<open>trans_units\<close> as the accumulator.
\<close>

definition collect_step :: "string \<Rightarrow> bool \<Rightarrow> element list \<Rightarrow> element \<Rightarrow> element list" where
  "collect_step ns use_ns trans_units child =
     (let child_id = get_default child ''id'' ''''
      in if endswith (tag child) ''group'' \<and> contains ''_SubPos'' child_id
         then trans_units
         else if endswith (tag child) ''trans-unit''
         then trans_units @ [child]
         else if endswith (tag child) ''group''
         then trans_units @ findall_desc child (path_tag ns use_ns ''trans-unit'')
         else trans_units)"

definition collect_trans_units :: "string \<Rightarrow> bool \<Rightarrow> element \<Rightarrow> element list" where
  "collect_trans_units ns use_ns grp = foldl (collect_step ns use_ns) [] (children grp)"

text \<open>The state attribute of an optional target element, empty when either is absent.\<close>

definition target_state_of :: "element option \<Rightarrow> string" where
  "target_state_of target_elem =
     (case target_elem of None \<Rightarrow> '''' | Some t \<Rightarrow> get_default t ''state'' '''')"

text \<open>One translation unit's effect on \<^verbatim>\<open>group_data\<close> (lines 105 to 139).\<close>

definition resolve_step :: "string \<Rightarrow> bool \<Rightarrow> group_data \<Rightarrow> element \<Rightarrow> group_data" where
  "resolve_step ns use_ns gd trans_unit =
     (let unit_id = get_default trans_unit ''id'' '''';
          source_elem = find_child trans_unit (path_tag ns use_ns ''source'');
          target_elem = find_child trans_unit (path_tag ns use_ns ''target'')
      in if endswith unit_id ''_Abbr''
         then gd\<lparr>abbr := extract_text source_elem\<rparr>
         else if endswith unit_id ''_Name''
         then (let target_state = target_state_of target_elem
               in gd\<lparr>name_source := extract_text source_elem,
                      name_target_state := target_state,
                      name_target := (if target_state = ''needs-translation'' then ''''
                                      else extract_text target_elem)\<rparr>)
         else if endswith unit_id ''_Desc_0''
         then (let target_state = target_state_of target_elem
               in gd\<lparr>desc_source := extract_text source_elem,
                      desc_target_state := target_state,
                      desc_target := (if target_state = ''needs-translation'' then ''''
                                      else extract_text target_elem)\<rparr>)
         else gd)"

text \<open>The resolved fields of one group.\<close>

definition resolve_group :: "string \<Rightarrow> bool \<Rightarrow> element \<Rightarrow> group_data" where
  "resolve_group ns use_ns grp =
     foldl (resolve_step ns use_ns) empty_group_data (collect_trans_units ns use_ns grp)"

text \<open>
  A snapshot: the dictionary \<^verbatim>\<open>data\<close> and the list \<^verbatim>\<open>group_order\<close>.  One step of the
  loop over the target groups stores the group's fields under its identifier (a later
  group with the same identifier overwrites an earlier one) and appends the identifier.
\<close>

type_synonym snapshot = "(string \<rightharpoonup> group_data) \<times> string list"

definition parse_step :: "string \<Rightarrow> bool \<Rightarrow> snapshot \<Rightarrow> element \<Rightarrow> snapshot" where
  "parse_step ns use_ns st grp =
     (let group_id = get_default grp ''id'' ''''
      in ((fst st)(group_id \<mapsto> resolve_group ns use_ns grp), snd st @ [group_id]))"

text \<open>
  \<^verbatim>\<open>parse_xlf_file\<close>.  Its argument is what \<^verbatim>\<open>ET.parse(input_file).getroot()\<close> gives:
  \<open>None\<close> when the parse raises, the root element otherwise.
\<close>

definition parse_xlf_file :: "element option \<Rightarrow> failure + snapshot" where
  "parse_xlf_file input_file =
     (case input_file of
        None \<Rightarrow> Inl ParseFailure
      | Some root \<Rightarrow>
          (case detect_ns ''http://www.w3.org/2001/xliff'' root of
             Inl e \<Rightarrow> Inl e
           | Inr (ns, use_ns) \<Rightarrow>
               Inr (foldl (parse_step ns use_ns) (Map.empty, []) (target_groups ns use_ns root))))"

section \<open>\<^verbatim>\<open>compare_xlf.py\<close>: the differences between two snapshots\<close>

datatype compare_type = Name | Description

text \<open>
  The dictionary \<^verbatim>\<open>change_data\<close>; its keys carry the prefix \<open>chg_\<close> here.  A key that
  the script sets only for description comparisons or only with \<^verbatim>\<open>include_state\<close> is
  \<open>None\<close> when it is not set.
\<close>

record change_data =
  chg_abbr :: string
  chg_name_source :: string
  chg_desc_source :: "string option"
  chg_content_before :: string
  chg_content_after :: string
  chg_state_before :: "string option"
  chg_state_after :: "string option"

text \<open>
  One step of the loop over \<^verbatim>\<open>order2\<close> (lines 180 to 219).  An identifier outside
  \<^verbatim>\<open>common_groups\<close>, the keys of both dictionaries, is skipped; for the others \<open>d1\<close> and
  \<open>d2\<close> are the two entries.
\<close>

definition compare_step ::
  "compare_type \<Rightarrow> bool \<Rightarrow> (string \<rightharpoonup> group_data) \<Rightarrow> (string \<rightharpoonup> group_data) \<Rightarrow>
   change_data list \<Rightarrow> string \<Rightarrow> change_data list" where
  "compare_step compare_type include_state data1 data2 changes group_id =
     (case (data1 group_id, data2 group_id) of
        (Some d1, Some d2) \<Rightarrow>
          (case compare_type of
             Name \<Rightarrow>
               (let content_changed = (name_target d1 \<noteq> name_target d2);
                    state_changed = (if include_state
                                     then name_target_state d1 \<noteq> name_target_state d2
                                     else False)
                in if content_changed \<or> state_changed
                   then changes @
                     [\<lparr>chg_abbr = abbr d2, chg_name_source = name_source d2,
                       chg_desc_source = None,
                       chg_content_before = name_target d1,
                       chg_content_after = name_target d2,
                       chg_state_before =
                         (if include_state then Some (name_target_state d1) else None),
                       chg_state_after =
                         (if include_state then Some (name_target_state d2) else None)\<rparr>]
                   else changes)
           | Description \<Rightarrow>
               (let content_changed = (desc_target d1 \<noteq> desc_target d2);
                    state_changed = (if include_state
                                     then desc_target_state d1 \<noteq> desc_target_state d2
                                     else False)
                in if content_changed \<or> state_changed
                   then changes @
                     [\<lparr>chg_abbr = abbr d2, chg_name_source = name_source d2,
                       chg_desc_source = Some (desc_source d2),
                       chg_content_before = desc_target d1,
                       chg_content_after = desc_target d2,
                       chg_state_before =
                         (if include_state then Some (desc_target_state d1) else None),
                       chg_state_after =
                         (if include_state then Some (desc_target_state d2) else None)\<rparr>]
                   else changes))
      | _ \<Rightarrow> changes)"

text \<open>
  \<^verbatim>\<open>compare_files\<close> up to the list \<^verbatim>\<open>changes\<close>, which the script then writes row by row
  in this order.
\<close>

definition compare_files ::
  "element option \<Rightarrow> element option \<Rightarrow> compare_type \<Rightarrow> bool \<Rightarrow> failure + change_data list" where
  "compare_files file1 file2 compare_type include_state =
     (case parse_xlf_file file1 of
        Inl e \<Rightarrow> Inl e
      | Inr (data1, order1) \<Rightarrow>
          (case parse_xlf_file file2 of
             Inl e \<Rightarrow> Inl e
           | Inr (data2, order2) \<Rightarrow>
               Inr (foldl (compare_step compare_type include_state data1 data2) [] order2)))"

section \<open>\<^verbatim>\<open>extract_xlf.py\<close>: one field of every group\<close>

text \<open>The five values \<^verbatim>\<open>main\<close> passes as \<^verbatim>\<open>pattern_type\<close>.\<close>

datatype pattern_type =
  PT_name | PT_name_with_desc | PT_description | PT_description_with_name | PT_question

text \<open>\<^verbatim>\<open>pattern.search(unit_id)\<close>, \<^verbatim>\<open>include_extra\<close> and \<^verbatim>\<open>extra_pattern.search(unit_id)\<close>.\<close>

fun pattern_search :: "pattern_type \<Rightarrow> string \<Rightarrow> bool" where
  "pattern_search PT_name unit_id = search_suffix ''_Name'' unit_id"
| "pattern_search PT_name_with_desc unit_id = search_suffix ''_Name'' unit_id"
| "pattern_search PT_description unit_id = search_suffix ''_Desc_0'' unit_id"
| "pattern_search PT_description_with_name unit_id = search_suffix ''_Desc_0'' unit_id"
| "pattern_search PT_question unit_id = search_Qs_Q unit_id"

fun include_extra :: "pattern_type \<Rightarrow> bool" where
  "include_extra PT_name_with_desc = True"
| "include_extra PT_description_with_name = True"
| "include_extra _ = False"

fun extra_pattern_search :: "pattern_type \<Rightarrow> string \<Rightarrow> bool" where
  "extra_pattern_search PT_name_with_desc unit_id = search_suffix ''_Desc_0'' unit_id"
| "extra_pattern_search PT_description_with_name unit_id = search_suffix ''_Name'' unit_id"
| "extra_pattern_search _ unit_id = False"

text \<open>
  The abbreviation of a group (lines 122 to 133): the source text of the first direct
  child that is a translation unit with an identifier ending in \<^verbatim>\<open>_Abbr\<close>.
\<close>

definition abbr_text_of :: "string \<Rightarrow> bool \<Rightarrow> element \<Rightarrow> string" where
  "abbr_text_of ns use_ns grp =
     (case List.find (\<lambda>child. endswith (tag child) ''trans-unit'' \<and>
                              endswith (get_default child ''id'' '''') ''_Abbr'')
             (children grp) of
        None \<Rightarrow> ''''
      | Some child \<Rightarrow> extract_text (find_child child (path_tag ns use_ns ''source'')))"

text \<open>
  The search for the matching unit (lines 153 to 180).  The state is \<^verbatim>\<open>found\<close>,
  \<^verbatim>\<open>source_text\<close>, \<^verbatim>\<open>target_text\<close> and \<^verbatim>\<open>extra_source_text\<close>.
\<close>

record match_state =
  found :: bool
  source_text :: string
  target_text :: string
  extra_source_text :: string

definition match_init :: match_state where
  "match_init = \<lparr>found = False, source_text = '''', target_text = '''', extra_source_text = ''''\<rparr>"

definition match_step :: "string \<Rightarrow> bool \<Rightarrow> pattern_type \<Rightarrow> match_state \<Rightarrow> element \<Rightarrow> match_state" where
  "match_step ns use_ns pt st trans_unit =
     (let unit_id = get_default trans_unit ''id'' '''';
          st1 = (if pattern_search pt unit_id
                 then st\<lparr>source_text :=
                            extract_text (find_child trans_unit (path_tag ns use_ns ''source'')),
                          target_text :=
                            extract_text (find_child trans_unit (path_tag ns use_ns ''target'')),
                          found := True\<rparr>
                 else st)
      in if include_extra pt \<and> extra_pattern_search pt unit_id
         then st1\<lparr>extra_source_text :=
                     extract_text (find_child trans_unit (path_tag ns use_ns ''source''))\<rparr>
         else st1)"

text \<open>
  One group (lines 116 to 193): a row is appended when a unit matched, the count of
  missing groups grows otherwise.  A row is the tuple the script joins with tabs.
\<close>

definition extract_step ::
  "string \<Rightarrow> bool \<Rightarrow> pattern_type \<Rightarrow> string list list \<times> nat \<Rightarrow> element \<Rightarrow> string list list \<times> nat" where
  "extract_step ns use_ns pt acc grp =
     (let abbr_text = abbr_text_of ns use_ns grp;
          st = foldl (match_step ns use_ns pt) match_init (collect_trans_units ns use_ns grp)
      in if found st
         then (if include_extra pt
               then (if pt = PT_description_with_name
                     then (fst acc @ [[abbr_text, extra_source_text st, source_text st, target_text st]],
                           snd acc)
                     else (fst acc @ [[abbr_text, source_text st, target_text st, extra_source_text st]],
                           snd acc))
               else (fst acc @ [[abbr_text, source_text st, target_text st]], snd acc))
         else (fst acc, snd acc + 1))"

text \<open>\<^verbatim>\<open>extract_data\<close> up to the pair of \<^verbatim>\<open>results\<close> and \<^verbatim>\<open>missing_count\<close>.\<close>

definition extract_data :: "element option \<Rightarrow> pattern_type \<Rightarrow> failure + (string list list \<times> nat)" where
  "extract_data input_file pt =
     (case input_file of
        None \<Rightarrow> Inl ParseFailure
      | Some root \<Rightarrow>
          (case detect_ns ''http://www.w3.org/2001/xliff'' root of
             Inl e \<Rightarrow> Inl e
           | Inr (ns, use_ns) \<Rightarrow>
               Inr (foldl (extract_step ns use_ns pt) ([], 0) (target_groups ns use_ns root))))"

section \<open>\<^verbatim>\<open>comma_lists.py\<close>: lists of different lengths\<close>

text \<open>The dictionary \<^verbatim>\<open>result\<close>; its keys carry the prefix \<open>cl_\<close> here.\<close>

record cl_result =
  cl_abbr_source :: string
  cl_name_source :: string
  cl_name_target :: string
  cl_target_state :: string
  cl_source_count :: nat
  cl_target_count :: nat

text \<open>\<^verbatim>\<open>tu.get('resname', '') or tu.get('id', '')\<close>.\<close>

definition unit_id_of :: "element \<Rightarrow> string" where
  "unit_id_of tu =
     (let r = get_default tu ''resname'' ''''
      in if r \<noteq> [] then r else get_default tu ''id'' '''')"

text \<open>The search for the unit that holds the abbreviation (lines 87 to 101).\<close>

definition abbr_source_of :: "string \<Rightarrow> bool \<Rightarrow> element list \<Rightarrow> string \<Rightarrow> string" where
  "abbr_source_of ns use_ns all_trans_units unit_id =
     (let abbr_id = replace ''_Name'' ''_Abbr'' unit_id
      in case List.find (\<lambda>tu. unit_id_of tu = abbr_id) all_trans_units of
           None \<Rightarrow> ''''
         | Some tu \<Rightarrow> extract_text (find_child tu (path_tag ns use_ns ''source'')))"

text \<open>
  One translation unit (lines 59 to 116); the state is the pair of
  \<^verbatim>\<open>increased_results\<close> and \<^verbatim>\<open>decreased_results\<close>.
\<close>

definition comma_step ::
  "string \<Rightarrow> bool \<Rightarrow> element list \<Rightarrow> cl_result list \<times> cl_result list \<Rightarrow> element \<Rightarrow>
   cl_result list \<times> cl_result list" where
  "comma_step ns use_ns all_trans_units acc trans_unit =
     (let unit_id = unit_id_of trans_unit
      in if \<not> endswith unit_id ''_Name'' then acc
         else
           (let source_elem = find_child trans_unit (path_tag ns use_ns ''source'');
                target_elem = find_child trans_unit (path_tag ns use_ns ''target'');
                source_text = extract_text source_elem;
                target_text = extract_text target_elem;
                target_state = target_state_of target_elem;
                source_parts = map strip (split CHR '','' source_text);
                target_parts = map strip (split CHR '','' target_text)
            in if length source_parts \<noteq> length target_parts
               then (let result =
                           \<lparr>cl_abbr_source = abbr_source_of ns use_ns all_trans_units unit_id,
                            cl_name_source = source_text,
                            cl_name_target = target_text,
                            cl_target_state = target_state,
                            cl_source_count = length source_parts,
                            cl_target_count = length target_parts\<rparr>
                     in if length target_parts > length source_parts
                        then (fst acc @ [result], snd acc)
                        else (fst acc, snd acc @ [result]))
               else acc))"

text \<open>\<^verbatim>\<open>comma_lists\<close> up to the two lists it then writes, the increased one first.\<close>

definition comma_lists :: "element option \<Rightarrow> failure + (cl_result list \<times> cl_result list)" where
  "comma_lists input_file =
     (case input_file of
        None \<Rightarrow> Inl ParseFailure
      | Some root \<Rightarrow>
          (case detect_ns ''urn:oasis:names:tc:xliff:document:1.2'' root of
             Inl e \<Rightarrow> Inl e
           | Inr (ns, use_ns) \<Rightarrow>
               (let all_trans_units = findall_desc root (path_tag ns use_ns ''trans-unit'')
                in Inr (foldl (comma_step ns use_ns all_trans_units) ([], []) all_trans_units))))"

section \<open>\<^verbatim>\<open>find_identical_translations.py\<close>\<close>

text \<open>The dictionary appended to \<^verbatim>\<open>results\<close>; its keys carry the prefix \<open>it_\<close> here.\<close>

record it_result =
  it_id :: string
  it_resname :: string
  it_source :: string
  it_target :: string
  it_matching_pieces :: "string list"
  it_type :: string

text \<open>This script binds the prefix to one fixed URI and does not look at the root's tag.\<close>

definition xliff_ns :: string where
  "xliff_ns = ''urn:oasis:names:tc:xliff:document:1.2''"

text \<open>\<^verbatim>\<open>elem.text if elem.text else ''\<close>.\<close>

definition text_or_empty :: "element \<Rightarrow> string" where
  "text_or_empty e = (case etext e of None \<Rightarrow> '''' | Some s \<Rightarrow> s)"

text \<open>One translation unit (lines 30 to 99), \<^verbatim>\<open>results\<close> as the accumulator.\<close>

definition identical_step :: "it_result list \<Rightarrow> element \<Rightarrow> it_result list" where
  "identical_step results trans_unit =
     (let approved_attr = get trans_unit ''approved'';
          translate_attr = get trans_unit ''translate'';
          resname = get_default trans_unit ''resname'' ''''
      in if endswith resname ''_Abbr'' then results
         else
           (case (find_child trans_unit (path_tag xliff_ns True ''source''),
                  find_child trans_unit (path_tag xliff_ns True ''target'')) of
              (Some source, Some target) \<Rightarrow>
                (if get target ''state'' = Some ''needs-translation'' then results
                 else
                   (let source_text = text_or_empty source;
                        target_text = text_or_empty target
                    in if approved_attr = Some ''yes'' \<and> translate_attr \<noteq> Some ''no''
                       then (let target_pieces = map strip (split CHR '','' target_text);
                                 matching_pieces =
                                   filter (\<lambda>piece. piece \<noteq> [] \<and> contains piece source_text)
                                     target_pieces
                             in if matching_pieces \<noteq> []
                                then results @
                                  [\<lparr>it_id = get_default trans_unit ''id'' ''N/A'',
                                    it_resname = resname,
                                    it_source = source_text,
                                    it_target = target_text,
                                    it_matching_pieces = matching_pieces,
                                    it_type = ''approved (comma-split)''\<rparr>]
                                else results)
                       else if approved_attr = Some ''yes'' \<and> translate_attr = Some ''no''
                       then (if source_text = target_text
                             then results @
                               [\<lparr>it_id = get_default trans_unit ''id'' ''N/A'',
                                 it_resname = resname,
                                 it_source = source_text,
                                 it_target = target_text,
                                 it_matching_pieces = [source_text],
                                 it_type = ''approved + translate=no (identical)''\<rparr>]
                             else results)
                       else if approved_attr \<noteq> Some ''yes'' \<and> translate_attr \<noteq> Some ''no''
                       then (if source_text = target_text
                             then results @
                               [\<lparr>it_id = get_default trans_unit ''id'' ''N/A'',
                                 it_resname = resname,
                                 it_source = source_text,
                                 it_target = target_text,
                                 it_matching_pieces = [source_text],
                                 it_type = ''not approved (identical)''\<rparr>]
                             else results)
                       else results))
            | _ \<Rightarrow> results))"

text \<open>
  \<^verbatim>\<open>find_identical_translations\<close>: \<open>None\<close> is a parse that raises, which \<^verbatim>\<open>main\<close> turns
  into an exit.
\<close>

definition find_identical_translations :: "element option \<Rightarrow> failure + it_result list" where
  "find_identical_translations xliff_file =
     (case xliff_file of
        None \<Rightarrow> Inl ParseFailure
      | Some root \<Rightarrow>
          Inr (foldl identical_step [] (findall_desc root (path_tag xliff_ns True ''trans-unit''))))"

text \<open>
  \<^verbatim>\<open>main\<close> sorts the results by \<^verbatim>\<open>type_order.get(x['type'], 4)\<close>.  Python's sort is
  stable, as \<^const>\<open>sort_key\<close> is.
\<close>

definition type_order :: "string \<Rightarrow> nat" where
  "type_order t =
     (if t = ''approved (comma-split)'' then 1
      else if t = ''approved + translate=no (identical)'' then 2
      else if t = ''not approved (identical)'' then 3
      else 4)"

definition sorted_results :: "element option \<Rightarrow> failure + it_result list" where
  "sorted_results xliff_file =
     (case find_identical_translations xliff_file of
        Inl e \<Rightarrow> Inl e
      | Inr results \<Rightarrow> Inr (sort_key (\<lambda>x. type_order (it_type x)) results))"

section \<open>Vocabulary of the properties\<close>

text \<open>
  The two tests the traversal makes on a direct child, and the units it takes from one
  child as the specification words it: a translation unit itself, the descendant
  translation units of a group, nothing of a group marked \<^verbatim>\<open>_SubPos\<close>.
\<close>

definition is_trans_unit :: "element \<Rightarrow> bool" where
  "is_trans_unit child = endswith (tag child) ''trans-unit''"

definition is_group :: "element \<Rightarrow> bool" where
  "is_group child = endswith (tag child) ''group''"

definition is_subpos :: "element \<Rightarrow> bool" where
  "is_subpos child = contains ''_SubPos'' (get_default child ''id'' '''')"

definition effective_units :: "string \<Rightarrow> bool \<Rightarrow> element \<Rightarrow> element list" where
  "effective_units ns use_ns child =
     (if is_trans_unit child then [child]
      else if is_group child \<and> \<not> is_subpos child
      then findall_desc child (path_tag ns use_ns ''trans-unit'')
      else [])"

text \<open>
  The tracked field of a comparison, and the change predicate of the specification:
  the content differs, or the state differs when states are compared.
\<close>

definition target_content :: "compare_type \<Rightarrow> group_data \<Rightarrow> string" where
  "target_content ct d = (case ct of Name \<Rightarrow> name_target d | Description \<Rightarrow> desc_target d)"

definition target_state :: "compare_type \<Rightarrow> group_data \<Rightarrow> string" where
  "target_state ct d =
     (case ct of Name \<Rightarrow> name_target_state d | Description \<Rightarrow> desc_target_state d)"

definition differs :: "compare_type \<Rightarrow> bool \<Rightarrow> group_data \<Rightarrow> group_data \<Rightarrow> bool" where
  "differs ct include_state d1 d2 =
     (target_content ct d1 \<noteq> target_content ct d2 \<or>
      (include_state \<and> target_state ct d1 \<noteq> target_state ct d2))"

text \<open>An identifier is in both snapshots and its tracked field changed.\<close>

definition changed ::
  "compare_type \<Rightarrow> bool \<Rightarrow> (string \<rightharpoonup> group_data) \<Rightarrow> (string \<rightharpoonup> group_data) \<Rightarrow> string \<Rightarrow> bool" where
  "changed ct include_state data1 data2 g =
     (case (data1 g, data2 g) of
        (Some d1, Some d2) \<Rightarrow> differs ct include_state d1 d2
      | _ \<Rightarrow> False)"

text \<open>The identifier of a group, as \<^verbatim>\<open>parse_xlf_file\<close> reads it.\<close>

definition group_id_of :: "element \<Rightarrow> string" where
  "group_id_of grp = get_default grp ''id'' ''''"

text \<open>
  A root as the XML parser returns it: a tag that opens a brace, the mark of a namespace,
  also closes it.
\<close>

definition wf_root :: "element \<Rightarrow> bool" where
  "wf_root root = (\<not> startswith (tag root) ''{'' \<or> CHR ''}'' \<in> set (tag root))"

text \<open>A group has the element that \<^verbatim>\<open>extract_data\<close> looks for.\<close>

definition has_match :: "string \<Rightarrow> bool \<Rightarrow> pattern_type \<Rightarrow> element \<Rightarrow> bool" where
  "has_match ns use_ns pt grp =
     list_ex (\<lambda>u. pattern_search pt (get_default u ''id'' ''''))
       (collect_trans_units ns use_ns grp)"

text \<open>A group has a unit whose identifier ends in the given suffix.\<close>

definition has_field :: "string \<Rightarrow> bool \<Rightarrow> string \<Rightarrow> element \<Rightarrow> bool" where
  "has_field ns use_ns suf grp =
     list_ex (\<lambda>u. endswith (get_default u ''id'' '''') suf) (collect_trans_units ns use_ns grp)"

text \<open>
  A snapshot entry obeys the suppression rule: a target state \<^verbatim>\<open>needs-translation\<close>
  comes with an empty target text.
\<close>

definition suppressed :: "group_data \<Rightarrow> bool" where
  "suppressed d =
     ((name_target_state d \<noteq> ''needs-translation'' \<or> name_target d = '''') \<and>
      (desc_target_state d \<noteq> ''needs-translation'' \<or> desc_target d = ''''))"

text \<open>
  The list-length rule in the specification's words: a unit is a name, its source and
  target texts are split on commas and the pieces trimmed and counted, and a record
  holds the two texts, the state and the two counts.
\<close>

definition is_name_unit :: "element \<Rightarrow> bool" where
  "is_name_unit u = endswith (unit_id_of u) ''_Name''"

definition piece_count :: "string \<Rightarrow> nat" where
  "piece_count s = length (map strip (split CHR '','' s))"

definition source_count :: "string \<Rightarrow> bool \<Rightarrow> element \<Rightarrow> nat" where
  "source_count ns use_ns u =
     piece_count (extract_text (find_child u (path_tag ns use_ns ''source'')))"

definition target_count :: "string \<Rightarrow> bool \<Rightarrow> element \<Rightarrow> nat" where
  "target_count ns use_ns u =
     piece_count (extract_text (find_child u (path_tag ns use_ns ''target'')))"

definition mismatch_record :: "string \<Rightarrow> bool \<Rightarrow> element list \<Rightarrow> element \<Rightarrow> cl_result" where
  "mismatch_record ns use_ns all_trans_units u =
     \<lparr>cl_abbr_source = abbr_source_of ns use_ns all_trans_units (unit_id_of u),
      cl_name_source = extract_text (find_child u (path_tag ns use_ns ''source'')),
      cl_name_target = extract_text (find_child u (path_tag ns use_ns ''target'')),
      cl_target_state = target_state_of (find_child u (path_tag ns use_ns ''target'')),
      cl_source_count = source_count ns use_ns u,
      cl_target_count = target_count ns use_ns u\<rparr>"

text \<open>
  The identical-translation rules in the specification's words.  A unit is excluded by
  its identifier (the attribute \<^verbatim>\<open>resname\<close> of the export) or by the state of its target;
  the two flags select one of four rules.
\<close>

definition source_of :: "element \<Rightarrow> element option" where
  "source_of u = find_child u (path_tag xliff_ns True ''source'')"

definition target_of :: "element \<Rightarrow> element option" where
  "target_of u = find_child u (path_tag xliff_ns True ''target'')"

definition abbr_excluded :: "element \<Rightarrow> bool" where
  "abbr_excluded u = endswith (get_default u ''resname'' '''') ''_Abbr''"

definition state_excluded :: "element \<Rightarrow> bool" where
  "state_excluded u =
     (case target_of u of
        None \<Rightarrow> False
      | Some t \<Rightarrow> get t ''state'' = Some ''needs-translation'')"

definition approved :: "element \<Rightarrow> bool" where
  "approved u = (get u ''approved'' = Some ''yes'')"

definition translate_suppressed :: "element \<Rightarrow> bool" where
  "translate_suppressed u = (get u ''translate'' = Some ''no'')"

datatype rule = Comma_Split | Identical_Suppressed | Identical_Not_Approved | No_Record

definition rule_of :: "element \<Rightarrow> rule" where
  "rule_of u =
     (if approved u
      then (if translate_suppressed u then Identical_Suppressed else Comma_Split)
      else (if translate_suppressed u then No_Record else Identical_Not_Approved))"

text \<open>The source and the target text of a unit that has both elements.\<close>

definition unit_texts :: "element \<Rightarrow> (string \<times> string) option" where
  "unit_texts u =
     (case (source_of u, target_of u) of
        (Some s, Some t) \<Rightarrow> Some (text_or_empty s, text_or_empty t)
      | _ \<Rightarrow> None)"

text \<open>
  The non-empty trimmed pieces of the target that occur in the source, and the record
  of a unit with given texts, pieces and rule label.
\<close>

definition matched_pieces :: "string \<Rightarrow> string \<Rightarrow> string list" where
  "matched_pieces src tgt =
     filter (\<lambda>piece. piece \<noteq> [] \<and> contains piece src) (map strip (split CHR '','' tgt))"

definition it_record :: "element \<Rightarrow> string \<Rightarrow> string \<Rightarrow> string list \<Rightarrow> string \<Rightarrow> it_result" where
  "it_record u src tgt pieces label =
     \<lparr>it_id = get_default u ''id'' ''N/A'',
      it_resname = get_default u ''resname'' '''',
      it_source = src,
      it_target = tgt,
      it_matching_pieces = pieces,
      it_type = label\<rparr>"

text \<open>What the rule of a unit records for given texts: at most one record.\<close>

definition rule_records :: "element \<Rightarrow> string \<Rightarrow> string \<Rightarrow> it_result list" where
  "rule_records u src tgt =
     (case rule_of u of
        Comma_Split \<Rightarrow>
          (if matched_pieces src tgt \<noteq> []
           then [it_record u src tgt (matched_pieces src tgt) ''approved (comma-split)'']
           else [])
      | Identical_Suppressed \<Rightarrow>
          (if src = tgt
           then [it_record u src tgt [src] ''approved + translate=no (identical)'']
           else [])
      | Identical_Not_Approved \<Rightarrow>
          (if src = tgt
           then [it_record u src tgt [src] ''not approved (identical)'']
           else [])
      | No_Record \<Rightarrow> [])"

text \<open>
  The same document in a namespace: every tag gets the URI in braces in front, as the
  parser writes the tags of a document that declares the URI as its default namespace.
\<close>

fun qualify :: "string \<Rightarrow> element \<Rightarrow> element" where
  "qualify uri (Element t a x cs y) =
     Element (''{'' @ uri @ ''}'' @ t) a x (map (qualify uri) cs) y"

section \<open>Example documents\<close>

text \<open>
  Small documents without a namespace, built from a leaf element with text, a
  translation unit with a source and a target that carries a state, and a semantic
  domain group (its first child is the \<^verbatim>\<open>guid\<close> marker).
\<close>

definition leaf :: "string \<Rightarrow> (string \<times> string) list \<Rightarrow> string \<Rightarrow> element" where
  "leaf t a s = Element t a (Some s) [] None"

definition ex_unit :: "string \<Rightarrow> string \<Rightarrow> string \<Rightarrow> string \<Rightarrow> element" where
  "ex_unit uid src st tgt =
     Element ''trans-unit'' [(''id'', uid)] None
       [leaf ''source'' [] src, leaf ''target'' [(''state'', st)] tgt] None"

definition ex_domain :: "string \<Rightarrow> element list \<Rightarrow> element" where
  "ex_domain gid units =
     Element ''group'' [(''id'', gid)] None (leaf ''guid'' [] ''g'' # units) None"

definition ex_doc :: "element list \<Rightarrow> element" where
  "ex_doc groups = Element ''xliff'' [] None [Element ''body'' [] None groups None] None"

text \<open>
  The group of the specification's traversal example: one direct unit, one group
  marked \<^verbatim>\<open>_SubPos\<close> with a unit, one other group with a unit.
\<close>

definition ex_traversal_group :: element where
  "ex_traversal_group =
     ex_domain ''1''
       [ex_unit ''1_Name'' ''Universe'' ''final'' ''Universo'',
        Element ''group'' [(''id'', ''1_SubPos'')] None
          [ex_unit ''1_SubPos_Name'' ''Sky'' ''final'' ''Ceu''] None,
        Element ''group'' [(''id'', ''1_Desc'')] None
          [ex_unit ''1_Desc_0'' ''Everything'' ''final'' ''Tudo''] None]"

text \<open>
  An older and a newer document.  Group 1 has a new name target, group 2 keeps its
  text and changes its state, group 3 is only in the older document and group 4 only
  in the newer one; the newer document lists group 2 first and has other abbreviations.
\<close>

definition ex_older :: element where
  "ex_older =
     ex_doc
       [ex_domain ''1'' [ex_unit ''1_Abbr'' ''1'' '''' '''',
                         ex_unit ''1_Name'' ''Universe'' ''translated'' ''Universo''],
        ex_domain ''2'' [ex_unit ''2_Abbr'' ''2'' '''' '''',
                         ex_unit ''2_Name'' ''Person'' ''translated'' ''Pessoa''],
        ex_domain ''3'' [ex_unit ''3_Abbr'' ''3'' '''' '''',
                         ex_unit ''3_Name'' ''Language'' ''translated'' ''Lingua'']]"

definition ex_newer :: element where
  "ex_newer =
     ex_doc
       [ex_domain ''2'' [ex_unit ''2_Abbr'' ''2n'' '''' '''',
                         ex_unit ''2_Name'' ''Person'' ''final'' ''Pessoa''],
        ex_domain ''1'' [ex_unit ''1_Abbr'' ''1n'' '''' '''',
                         ex_unit ''1_Name'' ''Universe'' ''translated'' ''Cosmos''],
        ex_domain ''4'' [ex_unit ''4_Abbr'' ''4n'' '''' '''',
                         ex_unit ''4_Name'' ''Day'' ''translated'' ''Dia'']]"

text \<open>The snapshots that \<^verbatim>\<open>parse_xlf_file\<close> resolves from the two documents.\<close>

definition ex_gd :: "string \<Rightarrow> string \<Rightarrow> string \<Rightarrow> string \<Rightarrow> group_data" where
  "ex_gd a src st tgt =
     \<lparr>abbr = a, name_source = src, name_target = tgt, name_target_state = st,
      desc_source = '''', desc_target = '''', desc_target_state = ''''\<rparr>"

definition ex_older_data :: "string \<rightharpoonup> group_data" where
  "ex_older_data =
     [''1'' \<mapsto> ex_gd ''1'' ''Universe'' ''translated'' ''Universo'',
      ''2'' \<mapsto> ex_gd ''2'' ''Person'' ''translated'' ''Pessoa'',
      ''3'' \<mapsto> ex_gd ''3'' ''Language'' ''translated'' ''Lingua'']"

definition ex_newer_data :: "string \<rightharpoonup> group_data" where
  "ex_newer_data =
     [''2'' \<mapsto> ex_gd ''2n'' ''Person'' ''final'' ''Pessoa'',
      ''1'' \<mapsto> ex_gd ''1n'' ''Universe'' ''translated'' ''Cosmos'',
      ''4'' \<mapsto> ex_gd ''4n'' ''Day'' ''translated'' ''Dia'']"

text \<open>The one record of the name comparison of the two documents without states.\<close>

definition ex_change :: change_data where
  "ex_change =
     \<lparr>chg_abbr = ''1n'', chg_name_source = ''Universe'', chg_desc_source = None,
      chg_content_before = ''Universo'', chg_content_after = ''Cosmos'',
      chg_state_before = None, chg_state_after = None\<rparr>"

text \<open>Three groups, the second without a name.\<close>

definition ex_missing :: element where
  "ex_missing =
     ex_doc
       [ex_domain ''1'' [ex_unit ''1_Abbr'' ''1'' '''' '''',
                         ex_unit ''1_Name'' ''Universe'' ''translated'' ''Universo''],
        ex_domain ''2'' [ex_unit ''2_Abbr'' ''2'' '''' ''''],
        ex_domain ''3'' [ex_unit ''3_Abbr'' ''3'' '''' '''',
                         ex_unit ''3_Name'' ''Language'' ''translated'' ''Lingua'']]"

text \<open>The second group of the document with a missing name, and the document's snapshot.\<close>

definition ex_missing_group :: element where
  "ex_missing_group = ex_domain ''2'' [ex_unit ''2_Abbr'' ''2'' '''' '''']"

definition ex_missing_data :: "string \<rightharpoonup> group_data" where
  "ex_missing_data =
     [''1'' \<mapsto> ex_gd ''1'' ''Universe'' ''translated'' ''Universo'',
      ''2'' \<mapsto> ex_gd ''2'' '''' '''' '''',
      ''3'' \<mapsto> ex_gd ''3'' ''Language'' ''translated'' ''Lingua'']"

text \<open>
  A name whose target has the state \<^verbatim>\<open>needs-translation\<close> and stored text with one
  comma, a description in the same state, the document of a group with both, the same
  document with empty targets, and what the two operations give for the first document.
\<close>

definition ex_pending_unit :: element where
  "ex_pending_unit = ex_unit ''1_Name'' ''Sky'' ''needs-translation'' ''Ceu, Firmamento''"

definition ex_pending_desc :: element where
  "ex_pending_desc = ex_unit ''1_Desc_0'' ''Everything above'' ''needs-translation'' ''Tudo''"

definition ex_pending :: element where
  "ex_pending =
     ex_doc [ex_domain ''1'' [ex_unit ''1_Abbr'' ''1'' '''' '''', ex_pending_unit,
                              ex_pending_desc]]"

definition ex_pending_emptied :: element where
  "ex_pending_emptied =
     ex_doc [ex_domain ''1'' [ex_unit ''1_Abbr'' ''1'' '''' '''',
                              ex_unit ''1_Name'' ''Sky'' ''needs-translation'' '''',
                              ex_unit ''1_Desc_0'' ''Everything above'' ''needs-translation'' '''']]"

definition ex_pending_data :: group_data where
  "ex_pending_data =
     \<lparr>abbr = ''1'', name_source = ''Sky'', name_target = '''',
      name_target_state = ''needs-translation'',
      desc_source = ''Everything above'', desc_target = '''',
      desc_target_state = ''needs-translation''\<rparr>"

definition ex_pending_record :: cl_result where
  "ex_pending_record =
     \<lparr>cl_abbr_source = ''1'', cl_name_source = ''Sky'',
      cl_name_target = ''Ceu, Firmamento'', cl_target_state = ''needs-translation'',
      cl_source_count = 1, cl_target_count = 2\<rparr>"

text \<open>Names with lists: the target longer, the target shorter, the same length.\<close>

definition ex_lists :: element where
  "ex_lists =
     ex_doc
       [ex_unit ''1_Abbr'' ''1.1'' '''' '''',
        ex_unit ''1_Name'' ''a'' ''translated'' ''a, b'',
        ex_unit ''2_Name'' ''a, b, c'' ''translated'' ''x, y'',
        ex_unit ''3_Name'' ''a, b'' ''translated'' ''x, y'',
        ex_unit ''4_Name'' '''' ''translated'' ''x'']"

text \<open>The two records of the list-length rule on the document of lists.\<close>

definition ex_longer :: cl_result where
  "ex_longer =
     \<lparr>cl_abbr_source = ''1.1'', cl_name_source = ''a'', cl_name_target = ''a, b'',
      cl_target_state = ''translated'', cl_source_count = 1, cl_target_count = 2\<rparr>"

definition ex_shorter :: cl_result where
  "ex_shorter =
     \<lparr>cl_abbr_source = '''', cl_name_source = ''a, b, c'', cl_name_target = ''x, y'',
      cl_target_state = ''translated'', cl_source_count = 3, cl_target_count = 2\<rparr>"

text \<open>
  Units of an export: the identifier is in \<^verbatim>\<open>resname\<close>, the flags are attributes of the
  unit, the target carries a state.
\<close>

definition ex_export_unit ::
  "string \<Rightarrow> (string \<times> string) list \<Rightarrow> string \<Rightarrow> string \<Rightarrow> string \<Rightarrow> element" where
  "ex_export_unit rn flags src st tgt =
     Element ''trans-unit'' ([(''id'', ''7''), (''resname'', rn)] @ flags) None
       [leaf ''source'' [] src, leaf ''target'' [(''state'', st)] tgt] None"

definition ex_colours :: element where
  "ex_colours =
     ex_export_unit ''5_Name'' [(''approved'', ''yes'')]
       ''red, green, blue'' ''translated'' ''vermelho, green''"

definition ex_fish :: element where
  "ex_fish =
     ex_export_unit ''6_Name'' [(''approved'', ''yes''), (''translate'', ''no'')]
       ''Fish'' ''final'' ''Fish''"

definition ex_bird :: element where
  "ex_bird = ex_export_unit ''8_Name'' [] ''Bird'' ''translated'' ''Bird''"

definition ex_abbr :: element where
  "ex_abbr = ex_export_unit ''8_Abbr'' [] ''8'' ''translated'' ''8''"

definition ex_untranslated :: element where
  "ex_untranslated = ex_export_unit ''9_Name'' [] ''Tree'' ''needs-translation'' ''Tree''"

text \<open>
  Two more units of the export: the fish translated, and a unit that is neither
  approved nor to be translated whose target equals its source.
\<close>

definition ex_fish_translated :: element where
  "ex_fish_translated =
     ex_export_unit ''6_Name'' [(''approved'', ''yes''), (''translate'', ''no'')]
       ''Fish'' ''final'' ''Peixe''"

definition ex_locked :: element where
  "ex_locked = ex_export_unit ''10_Name'' [(''translate'', ''no'')] ''Sun'' ''final'' ''Sun''"

text \<open>
  An export of all these units without a namespace (the units in the reverse of the
  report's order), and the same export in the namespace of XLIFF 1.2.
\<close>

definition ex_export :: element where
  "ex_export =
     ex_doc [ex_bird, ex_abbr, ex_fish, ex_fish_translated, ex_locked, ex_untranslated,
             ex_colours]"

definition ex_export_ns :: element where
  "ex_export_ns = qualify xliff_ns ex_export"

text \<open>The three records of the export.\<close>

definition ex_rec_colours :: it_result where
  "ex_rec_colours =
     \<lparr>it_id = ''7'', it_resname = ''5_Name'', it_source = ''red, green, blue'',
      it_target = ''vermelho, green'', it_matching_pieces = [''green''],
      it_type = ''approved (comma-split)''\<rparr>"

definition ex_rec_fish :: it_result where
  "ex_rec_fish =
     \<lparr>it_id = ''7'', it_resname = ''6_Name'', it_source = ''Fish'', it_target = ''Fish'',
      it_matching_pieces = [''Fish''], it_type = ''approved + translate=no (identical)''\<rparr>"

definition ex_rec_bird :: it_result where
  "ex_rec_bird =
     \<lparr>it_id = ''7'', it_resname = ''8_Name'', it_source = ''Bird'', it_target = ''Bird'',
      it_matching_pieces = [''Bird''], it_type = ''not approved (identical)''\<rparr>"

section \<open>Rules for evaluating the examples\<close>

lemmas str_defs = endswith_def startswith_def contains_def suffix_to_prefix sublist_code
  strip_def isspace_def

lemmas el_defs = get_def get_default_def findall_desc_def find_child_def extract_text_def
  detect_ns_def path_tag_def

lemmas ex_defs = ex_older_def ex_newer_def ex_doc_def ex_domain_def ex_unit_def leaf_def
  ex_traversal_group_def ex_missing_def ex_pending_def ex_pending_unit_def ex_pending_desc_def
  ex_pending_emptied_def ex_export_unit_def ex_colours_def ex_fish_def ex_bird_def
  ex_abbr_def ex_untranslated_def ex_export_def ex_lists_def ex_fish_translated_def
  ex_locked_def ex_export_ns_def

lemmas parse_defs = parse_xlf_file_def target_groups_def has_guid_def collect_trans_units_def
  collect_step_def parse_step_def resolve_group_def resolve_step_def target_state_of_def
  empty_group_data_def Let_def

lemmas identical_defs = identical_step_def abbr_excluded_def state_excluded_def target_of_def
  source_of_def unit_texts_def text_or_empty_def rule_of_def approved_def
  translate_suppressed_def matched_pieces_def rule_records_def it_record_def xliff_ns_def
  Let_def

section \<open>Loops as folds\<close>

text \<open>A loop whose step only appends to its accumulator concatenates the steps' outputs.\<close>

lemma foldl_append_step:
  assumes "\<And>acc x. step acc x = acc @ step [] x"
  shows "foldl step acc xs = acc @ concat (map (step []) xs)"
proof (induction xs arbitrary: acc)
  case Nil
  show ?case by simp
next
  case (Cons x xs)
  have "foldl step acc (x # xs) = foldl step (step acc x) xs" by simp
  also have "\<dots> = step acc x @ concat (map (step []) xs)" by (rule Cons.IH)
  also have "\<dots> = acc @ step [] x @ concat (map (step []) xs)"
    using assms [of acc x] by simp
  finally show ?case by simp
qed

lemma foldl_pair_append_step:
  assumes "\<And>acc x. step acc x =
             (fst acc @ fst (step ([], []) x), snd acc @ snd (step ([], []) x))"
  shows "foldl step acc xs =
           (fst acc @ concat (map (\<lambda>x. fst (step ([], []) x)) xs),
            snd acc @ concat (map (\<lambda>x. snd (step ([], []) x)) xs))"
proof (induction xs arbitrary: acc)
  case Nil
  show ?case by simp
next
  case (Cons x xs)
  have "foldl step acc (x # xs) = foldl step (step acc x) xs" by simp
  also have "\<dots> = (fst (step acc x) @ concat (map (\<lambda>x. fst (step ([], []) x)) xs),
                     snd (step acc x) @ concat (map (\<lambda>x. snd (step ([], []) x)) xs))"
    by (rule Cons.IH)
  also have "step acc x = (fst acc @ fst (step ([], []) x), snd acc @ snd (step ([], []) x))"
    by (rule assms)
  finally show ?case by simp
qed

lemma foldl_invariant:
  assumes "P a" and "\<And>a x. P a \<Longrightarrow> x \<in> set xs \<Longrightarrow> P (f a x)"
  shows "P (foldl f a xs)"
  using assms by (induction xs arbitrary: a) simp_all

lemma concat_map_if:
  "concat (map (\<lambda>x. if P x then [g x] else []) xs) = map g (filter P xs)"
  by (induction xs) simp_all

lemma concat_map_filter_nonempty:
  "concat (map f xs) = concat (map f (filter (\<lambda>x. f x \<noteq> []) xs))"
  by (induction xs) simp_all

section \<open>Suffixes that exclude each other\<close>

lemma suffix_last: "suffix suf s \<Longrightarrow> suf \<noteq> [] \<Longrightarrow> last s = last suf"
  by (auto simp add: suffix_def)

lemma group_not_unit: "\<not> (endswith s ''group'' \<and> endswith s ''trans-unit'')"
  using suffix_last [of "''group''" s] suffix_last [of "''trans-unit''" s]
  by (auto simp add: endswith_def)

lemma Name_not_Abbr: "endswith s ''_Name'' \<Longrightarrow> \<not> endswith s ''_Abbr''"
  using suffix_last [of "''_Name''" s] suffix_last [of "''_Abbr''" s]
  by (auto simp add: endswith_def)

lemma Desc_not_Abbr: "endswith s ''_Desc_0'' \<Longrightarrow> \<not> endswith s ''_Abbr''"
  using suffix_last [of "''_Desc_0''" s] suffix_last [of "''_Abbr''" s]
  by (auto simp add: endswith_def)

lemma Desc_not_Name: "endswith s ''_Desc_0'' \<Longrightarrow> \<not> endswith s ''_Name''"
  using suffix_last [of "''_Desc_0''" s] suffix_last [of "''_Name''" s]
  by (auto simp add: endswith_def)

section \<open>The effective children of a group\<close>

lemma collect_step_append:
  "collect_step ns use_ns acc child = acc @ collect_step ns use_ns [] child"
  by (simp add: collect_step_def Let_def)

lemma collect_trans_units_concat:
  "collect_trans_units ns use_ns grp = concat (map (collect_step ns use_ns []) (children grp))"
proof -
  have "foldl (collect_step ns use_ns) [] (children grp) =
          [] @ concat (map (collect_step ns use_ns []) (children grp))"
    by (rule foldl_append_step) (rule collect_step_append)
  then show ?thesis by (simp add: collect_trans_units_def)
qed

lemma collect_step_effective:
  "collect_step ns use_ns [] child = effective_units ns use_ns child"
  using group_not_unit [of "tag child"]
  by (auto simp add: collect_step_def effective_units_def is_trans_unit_def is_group_def
        is_subpos_def Let_def)

text \<open>
  Claim C1.  The units that field resolution scans are, child by child in document
  order, what the traversal rule gives: a direct child that is a translation unit is
  taken itself; a direct child that is a group gives all its descendant translation
  units, unless its identifier contains \<^verbatim>\<open>_SubPos\<close>, and then it gives nothing.  The
  loop is the one of \<^verbatim>\<open>parse_xlf_file\<close>, and with the same text of \<^verbatim>\<open>extract_data\<close>.
\<close>

theorem effective_children_traversal:
  "collect_trans_units ns use_ns grp = concat (map (effective_units ns use_ns) (children grp)) \<and>
   (\<forall>child. is_trans_unit child \<longrightarrow> effective_units ns use_ns child = [child]) \<and>
   (\<forall>child. is_group child \<and> \<not> is_subpos child \<longrightarrow>
      effective_units ns use_ns child = findall_desc child (path_tag ns use_ns ''trans-unit'')) \<and>
   (\<forall>child. is_group child \<and> is_subpos child \<longrightarrow> effective_units ns use_ns child = [])"
proof -
  have "collect_step ns use_ns [] = effective_units ns use_ns"
    by (rule ext) (rule collect_step_effective)
  then have "collect_trans_units ns use_ns grp =
      concat (map (effective_units ns use_ns) (children grp))"
    by (simp add: collect_trans_units_concat)
  moreover have "effective_units ns use_ns child = [child]" if "is_trans_unit child" for child
    using that by (simp add: effective_units_def)
  moreover have
    "effective_units ns use_ns child = findall_desc child (path_tag ns use_ns ''trans-unit'')"
    if "is_group child \<and> \<not> is_subpos child" for child
    using that group_not_unit [of "tag child"]
    by (auto simp add: effective_units_def is_group_def is_trans_unit_def)
  moreover have "effective_units ns use_ns child = []"
    if "is_group child \<and> is_subpos child" for child
    using that group_not_unit [of "tag child"]
    by (auto simp add: effective_units_def is_group_def is_trans_unit_def)
  ultimately show ?thesis by blast
qed

text \<open>
  The specification's example: of a direct unit, a \<^verbatim>\<open>_SubPos\<close> group with a unit and
  another group with a unit, the first and the third unit are scanned.
\<close>

theorem effective_children_traversal_witness:
  "collect_trans_units '''' False ex_traversal_group =
     [ex_unit ''1_Name'' ''Universe'' ''final'' ''Universo'',
      ex_unit ''1_Desc_0'' ''Everything'' ''final'' ''Tudo''] \<and>
   is_trans_unit (ex_unit ''1_Name'' ''Universe'' ''final'' ''Universo'') \<and>
   is_group (Element ''group'' [(''id'', ''1_SubPos'')] None
          [ex_unit ''1_SubPos_Name'' ''Sky'' ''final'' ''Ceu''] None) \<and>
   is_subpos (Element ''group'' [(''id'', ''1_SubPos'')] None
          [ex_unit ''1_SubPos_Name'' ''Sky'' ''final'' ''Ceu''] None) \<and>
   is_group (Element ''group'' [(''id'', ''1_Desc'')] None
          [ex_unit ''1_Desc_0'' ''Everything'' ''final'' ''Tudo''] None) \<and>
   \<not> is_subpos (Element ''group'' [(''id'', ''1_Desc'')] None
          [ex_unit ''1_Desc_0'' ''Everything'' ''final'' ''Tudo''] None)"
  using effective_children_traversal [of "''''" False ex_traversal_group]
  by (simp add: effective_units_def is_trans_unit_def is_group_def is_subpos_def
        ex_defs str_defs el_defs)

section \<open>Snapshots\<close>

lemma parse_loop_order:
  "snd (foldl (parse_step ns use_ns) st gs) = snd st @ map group_id_of gs"
  by (induction gs arbitrary: st) (simp_all add: parse_step_def group_id_of_def Let_def)

lemma parse_loop_dom:
  "dom (fst (foldl (parse_step ns use_ns) st gs)) = dom (fst st) \<union> set (map group_id_of gs)"
  by (induction gs arbitrary: st) (auto simp add: parse_step_def group_id_of_def Let_def)

lemma parse_loop_lookup:
  "fst (foldl (parse_step ns use_ns) st gs) g = Some d \<Longrightarrow>
   fst st g = Some d \<or>
   (\<exists>grp \<in> set gs. group_id_of grp = g \<and> d = resolve_group ns use_ns grp)"
proof (induction gs arbitrary: st)
  case Nil
  then show ?case by simp
next
  case (Cons x xs)
  from Cons.prems have
    "fst (foldl (parse_step ns use_ns) (parse_step ns use_ns st x) xs) g = Some d" by simp
  then have "fst (parse_step ns use_ns st x) g = Some d \<or>
     (\<exists>grp \<in> set xs. group_id_of grp = g \<and> d = resolve_group ns use_ns grp)"
    by (rule Cons.IH)
  then show ?case
    by (auto simp add: parse_step_def Let_def group_id_of_def split: if_splits)
qed

text \<open>What a successful \<^verbatim>\<open>parse_xlf_file\<close> returned, taken apart.\<close>

lemma parse_xlf_file_Inr:
  assumes "parse_xlf_file f = Inr (data, order)"
  obtains root ns use_ns where "f = Some root"
    and "detect_ns ''http://www.w3.org/2001/xliff'' root = Inr (ns, use_ns)"
    and "foldl (parse_step ns use_ns) (Map.empty, []) (target_groups ns use_ns root) =
           (data, order)"
  using assms by (auto simp add: parse_xlf_file_def split: option.splits sum.splits)

text \<open>The keys of the dictionary are the identifiers of the order list.\<close>

lemma parse_xlf_file_keys:
  assumes "parse_xlf_file f = Inr (data, order)"
  shows "dom data = set order"
proof -
  from assms obtain root ns use_ns where
    st: "foldl (parse_step ns use_ns) (Map.empty, []) (target_groups ns use_ns root) =
           (data, order)"
    by (rule parse_xlf_file_Inr)
  have "dom data =
      dom (fst (foldl (parse_step ns use_ns) (Map.empty, []) (target_groups ns use_ns root)))"
    using st by simp
  moreover have
    "order = snd (foldl (parse_step ns use_ns) (Map.empty, []) (target_groups ns use_ns root))"
    using st by simp
  ultimately show ?thesis
    by (simp add: parse_loop_dom parse_loop_order)
qed

text \<open>Every entry of the dictionary holds the resolved fields of a target group.\<close>

lemma parse_xlf_file_lookup:
  assumes "parse_xlf_file f = Inr (data, order)" and "data g = Some d"
  shows "\<exists>root ns use_ns. f = Some root \<and>
           detect_ns ''http://www.w3.org/2001/xliff'' root = Inr (ns, use_ns) \<and>
           (\<exists>grp \<in> set (target_groups ns use_ns root).
              group_id_of grp = g \<and> d = resolve_group ns use_ns grp)"
proof -
  from assms(1) obtain root ns use_ns where
      r: "f = Some root" "detect_ns ''http://www.w3.org/2001/xliff'' root = Inr (ns, use_ns)"
      and st: "foldl (parse_step ns use_ns) (Map.empty, []) (target_groups ns use_ns root) =
               (data, order)"
    by (rule parse_xlf_file_Inr)
  have "fst (foldl (parse_step ns use_ns) (Map.empty, []) (target_groups ns use_ns root)) g =
          Some d"
    using st assms(2) by simp
  then have "\<exists>grp \<in> set (target_groups ns use_ns root).
              group_id_of grp = g \<and> d = resolve_group ns use_ns grp"
    using parse_loop_lookup [of ns use_ns "(Map.empty, [])" "target_groups ns use_ns root" g d]
    by simp
  with r show ?thesis by blast
qed

lemma ex_older_snapshot:
  "parse_xlf_file (Some ex_older) = Inr (ex_older_data, [''1'', ''2'', ''3''])"
  by (simp add: parse_defs ex_defs el_defs str_defs ex_older_data_def ex_gd_def)

lemma ex_newer_snapshot:
  "parse_xlf_file (Some ex_newer) = Inr (ex_newer_data, [''2'', ''1'', ''4''])"
  by (simp add: parse_defs ex_defs el_defs str_defs ex_newer_data_def ex_gd_def)

section \<open>The differences between two snapshots\<close>

lemma compare_step_append:
  "compare_step ct st d1 d2 acc g = acc @ compare_step ct st d1 d2 [] g"
  by (simp add: compare_step_def Let_def split: option.splits compare_type.splits)

lemma compare_loop_concat:
  "foldl (compare_step ct st d1 d2) [] order2 = concat (map (compare_step ct st d1 d2 []) order2)"
proof -
  have "foldl (compare_step ct st d1 d2) [] order2 =
          [] @ concat (map (compare_step ct st d1 d2 []) order2)"
    by (rule foldl_append_step) (rule compare_step_append)
  then show ?thesis by simp
qed

lemma compare_files_concat:
  assumes "parse_xlf_file file1 = Inr (data1, order1)"
    and "parse_xlf_file file2 = Inr (data2, order2)"
  shows "compare_files file1 file2 ct st =
           Inr (concat (map (compare_step ct st data1 data2 []) order2))"
  using assms by (simp add: compare_files_def compare_loop_concat)

text \<open>One identifier contributes a record exactly when it is in both snapshots and changed.\<close>

lemma compare_step_changed:
  "compare_step ct st data1 data2 [] g \<noteq> [] \<longleftrightarrow> changed ct st data1 data2 g"
  by (cases ct)
     (auto simp add: compare_step_def changed_def differs_def target_content_def
        target_state_def Let_def split: option.splits)

lemma compare_step_length:
  "length (compare_step ct st data1 data2 [] g) = (if changed ct st data1 data2 g then 1 else 0)"
  by (cases ct)
     (auto simp add: compare_step_def changed_def differs_def target_content_def
        target_state_def Let_def split: option.splits)

text \<open>
  Claim C2.  For two snapshots resolved from an older and a newer document, the output
  of the comparison is made of the contributions of the identifiers of the newer
  snapshot, and an identifier \<open>g\<close> contributes a record if and only if it is a key of both
  snapshots and the target content of the tracked field differs, or states are compared
  and the target state differs.  So an identifier of only one snapshot contributes
  nothing, and neither does one whose field did not change.
\<close>

theorem diff_membership:
  assumes "parse_xlf_file file1 = Inr (data1, order1)"
    and "parse_xlf_file file2 = Inr (data2, order2)"
  shows "compare_files file1 file2 ct st =
           Inr (concat (map (compare_step ct st data1 data2 []) order2)) \<and>
         ((g \<in> set order2 \<and> compare_step ct st data1 data2 [] g \<noteq> []) \<longleftrightarrow>
          (\<exists>d1 d2. data1 g = Some d1 \<and> data2 g = Some d2 \<and> differs ct st d1 d2))"
proof -
  have keys: "dom data2 = set order2"
    using assms(2) by (rule parse_xlf_file_keys)
  have "(g \<in> set order2 \<and> changed ct st data1 data2 g) \<longleftrightarrow>
        (\<exists>d1 d2. data1 g = Some d1 \<and> data2 g = Some d2 \<and> differs ct st d1 d2)"
  proof
    assume "g \<in> set order2 \<and> changed ct st data1 data2 g"
    then show "\<exists>d1 d2. data1 g = Some d1 \<and> data2 g = Some d2 \<and> differs ct st d1 d2"
      by (auto simp add: changed_def split: option.splits)
  next
    assume "\<exists>d1 d2. data1 g = Some d1 \<and> data2 g = Some d2 \<and> differs ct st d1 d2"
    then obtain d1 d2 where d: "data1 g = Some d1" "data2 g = Some d2" "differs ct st d1 d2"
      by blast
    from d(2) have "g \<in> dom data2" by blast
    with keys have "g \<in> set order2" by simp
    moreover from d have "changed ct st data1 data2 g" by (simp add: changed_def)
    ultimately show "g \<in> set order2 \<and> changed ct st data1 data2 g" by simp
  qed
  then show ?thesis
    using compare_files_concat [OF assms] by (simp add: compare_step_changed)
qed

text \<open>
  On the two example documents: group 2, whose text is the same and whose state
  changed, contributes when states are compared and not otherwise; group 3, only in
  the older document, and group 4, only in the newer one, contribute nothing.
\<close>

theorem diff_membership_witness:
  "parse_xlf_file (Some ex_older) = Inr (ex_older_data, [''1'', ''2'', ''3'']) \<and>
   parse_xlf_file (Some ex_newer) = Inr (ex_newer_data, [''2'', ''1'', ''4'']) \<and>
   compare_step Name True ex_older_data ex_newer_data [] ''2'' \<noteq> [] \<and>
   compare_step Name False ex_older_data ex_newer_data [] ''2'' = [] \<and>
   compare_step Name True ex_older_data ex_newer_data [] ''3'' = [] \<and>
   compare_step Name True ex_older_data ex_newer_data [] ''4'' = [] \<and>
   (\<exists>d1 d2. ex_older_data ''2'' = Some d1 \<and> ex_newer_data ''2'' = Some d2 \<and>
      differs Name True d1 d2)"
  using diff_membership [OF ex_older_snapshot ex_newer_snapshot, of Name True "''2''"]
    diff_membership [OF ex_older_snapshot ex_newer_snapshot, of Name False "''2''"]
    ex_older_snapshot ex_newer_snapshot
  by (simp add: compare_step_def ex_older_data_def ex_newer_data_def ex_gd_def differs_def
        target_content_def target_state_def)

text \<open>
  Claim C6.  The records of the comparison are those of the identifiers of the newer
  snapshot's order list that are in both snapshots and changed, one record each, in the
  order of that list; and that list holds the identifiers of the newer document's
  semantic domain groups in document order.  The older snapshot's order is not used.
\<close>

theorem diff_order:
  assumes "parse_xlf_file file1 = Inr (data1, order1)"
    and "parse_xlf_file file2 = Inr (data2, order2)"
  shows "compare_files file1 file2 ct st =
           Inr (concat (map (compare_step ct st data1 data2 [])
                  (filter (changed ct st data1 data2) order2))) \<and>
         (\<forall>g \<in> set (filter (changed ct st data1 data2) order2).
            length (compare_step ct st data1 data2 [] g) = 1) \<and>
         (\<exists>root ns use_ns. file2 = Some root \<and>
            detect_ns ''http://www.w3.org/2001/xliff'' root = Inr (ns, use_ns) \<and>
            order2 = map group_id_of (target_groups ns use_ns root))"
proof -
  have "concat (map (compare_step ct st data1 data2 []) order2) =
        concat (map (compare_step ct st data1 data2 [])
          (filter (\<lambda>g. compare_step ct st data1 data2 [] g \<noteq> []) order2))"
    by (rule concat_map_filter_nonempty)
  then have first: "compare_files file1 file2 ct st =
           Inr (concat (map (compare_step ct st data1 data2 [])
                  (filter (changed ct st data1 data2) order2)))"
    using compare_files_concat [OF assms] by (simp add: compare_step_changed)
  have second: "\<forall>g \<in> set (filter (changed ct st data1 data2) order2).
            length (compare_step ct st data1 data2 [] g) = 1"
    by (simp add: compare_step_length)
  from assms(2) obtain root ns use_ns where
      r: "file2 = Some root" "detect_ns ''http://www.w3.org/2001/xliff'' root = Inr (ns, use_ns)"
      and st: "foldl (parse_step ns use_ns) (Map.empty, []) (target_groups ns use_ns root) =
               (data2, order2)"
    by (rule parse_xlf_file_Inr)
  have "order2 = snd (foldl (parse_step ns use_ns) (Map.empty, []) (target_groups ns use_ns root))"
    using st by simp
  then have "order2 = map group_id_of (target_groups ns use_ns root)"
    by (simp add: parse_loop_order)
  with r have third: "\<exists>root ns use_ns. file2 = Some root \<and>
            detect_ns ''http://www.w3.org/2001/xliff'' root = Inr (ns, use_ns) \<and>
            order2 = map group_id_of (target_groups ns use_ns root)"
    by blast
  from first second third show ?thesis by blast
qed

text \<open>
  On the example documents the older order is 1, 2, 3 and the newer one 2, 1, 4: the
  record of group 2 comes before the record of group 1.
\<close>

theorem diff_order_witness:
  "parse_xlf_file (Some ex_older) = Inr (ex_older_data, [''1'', ''2'', ''3'']) \<and>
   parse_xlf_file (Some ex_newer) = Inr (ex_newer_data, [''2'', ''1'', ''4'']) \<and>
   filter (changed Name True ex_older_data ex_newer_data) [''2'', ''1'', ''4''] = [''2'', ''1''] \<and>
   compare_files (Some ex_older) (Some ex_newer) Name True =
     Inr (compare_step Name True ex_older_data ex_newer_data [] ''2'' @
          compare_step Name True ex_older_data ex_newer_data [] ''1'')"
  using diff_order [OF ex_older_snapshot ex_newer_snapshot, of Name True]
    ex_older_snapshot ex_newer_snapshot
  by (simp add: changed_def ex_older_data_def ex_newer_data_def ex_gd_def differs_def
        target_content_def target_state_def)

text \<open>
  Claim C10.  Every record of the comparison belongs to an identifier of the newer
  order list with an entry \<open>d1\<close> in the older and \<open>d2\<close> in the newer snapshot; its
  abbreviation, name source and (for descriptions) description source are those of
  \<open>d2\<close>, its content before and state before those of \<open>d1\<close>, its content after and
  state after those of \<open>d2\<close>.  The two states are present exactly when states are
  compared.
\<close>

theorem change_record_sides:
  assumes "parse_xlf_file file1 = Inr (data1, order1)"
    and "parse_xlf_file file2 = Inr (data2, order2)"
    and "compare_files file1 file2 ct st = Inr changes"
    and "c \<in> set changes"
  shows "\<exists>g d1 d2. g \<in> set order2 \<and> data1 g = Some d1 \<and> data2 g = Some d2 \<and>
           chg_abbr c = abbr d2 \<and>
           chg_name_source c = name_source d2 \<and>
           chg_desc_source c = (case ct of Name \<Rightarrow> None | Description \<Rightarrow> Some (desc_source d2)) \<and>
           chg_content_before c = target_content ct d1 \<and>
           chg_content_after c = target_content ct d2 \<and>
           chg_state_before c = (if st then Some (target_state ct d1) else None) \<and>
           chg_state_after c = (if st then Some (target_state ct d2) else None)"
proof -
  from assms(3) have "changes = concat (map (compare_step ct st data1 data2 []) order2)"
    using compare_files_concat [OF assms(1,2), of ct st] by simp
  with assms(4) obtain g where
    g: "g \<in> set order2" "c \<in> set (compare_step ct st data1 data2 [] g)"
    by auto
  from g(2) have "compare_step ct st data1 data2 [] g \<noteq> []" by auto
  then have "changed ct st data1 data2 g" by (simp add: compare_step_changed)
  then obtain d1 d2 where d: "data1 g = Some d1" "data2 g = Some d2"
    by (auto simp add: changed_def split: option.splits)
  from g(2) d have
    "chg_abbr c = abbr d2 \<and>
     chg_name_source c = name_source d2 \<and>
     chg_desc_source c = (case ct of Name \<Rightarrow> None | Description \<Rightarrow> Some (desc_source d2)) \<and>
     chg_content_before c = target_content ct d1 \<and>
     chg_content_after c = target_content ct d2 \<and>
     chg_state_before c = (if st then Some (target_state ct d1) else None) \<and>
     chg_state_after c = (if st then Some (target_state ct d2) else None)"
    by (cases ct)
       (auto simp add: compare_step_def target_content_def target_state_def Let_def
          split: if_splits)
  with g(1) d show ?thesis by blast
qed

text \<open>
  On the example documents the abbreviation of group 1 is \<^verbatim>\<open>1\<close> in the older and
  \<^verbatim>\<open>1n\<close> in the newer document; the record has the newer one.
\<close>

lemma ex_compare_names:
  "compare_files (Some ex_older) (Some ex_newer) Name False = Inr [ex_change]"
  using compare_files_concat [OF ex_older_snapshot ex_newer_snapshot, of Name False]
  by (simp add: compare_step_def ex_older_data_def ex_newer_data_def ex_gd_def ex_change_def)

theorem change_record_sides_witness:
  "parse_xlf_file (Some ex_older) = Inr (ex_older_data, [''1'', ''2'', ''3'']) \<and>
   parse_xlf_file (Some ex_newer) = Inr (ex_newer_data, [''2'', ''1'', ''4'']) \<and>
   compare_files (Some ex_older) (Some ex_newer) Name False = Inr [ex_change] \<and>
   ex_change \<in> set [ex_change] \<and>
   chg_abbr ex_change = ''1n'' \<and>
   (\<exists>g d1 d2. g \<in> set [''2'', ''1'', ''4''] \<and>
      ex_older_data g = Some d1 \<and> ex_newer_data g = Some d2 \<and>
      chg_abbr ex_change = abbr d2 \<and>
      chg_name_source ex_change = name_source d2 \<and>
      chg_desc_source ex_change = (case Name of Name \<Rightarrow> None | Description \<Rightarrow> Some (desc_source d2)) \<and>
      chg_content_before ex_change = target_content Name d1 \<and>
      chg_content_after ex_change = target_content Name d2 \<and>
      chg_state_before ex_change = (if False then Some (target_state Name d1) else None) \<and>
      chg_state_after ex_change = (if False then Some (target_state Name d2) else None))"
proof -
  have mem: "ex_change \<in> set [ex_change]" by simp
  have "chg_abbr ex_change = ''1n''" by (simp add: ex_change_def)
  with change_record_sides [OF ex_older_snapshot ex_newer_snapshot ex_compare_names mem]
    ex_older_snapshot ex_newer_snapshot ex_compare_names mem
  show ?thesis by blast
qed

section \<open>Lists of different lengths\<close>

lemma split_nonempty: "split sep s \<noteq> []"
  by (induction s) (simp_all split: list.splits)

text \<open>A string has one piece more than it has separators.\<close>

lemma length_split: "length (split sep s) = Suc (count_list s sep)"
proof (induction s)
  case Nil
  show ?case by simp
next
  case (Cons c cs)
  then show ?case
    using split_nonempty [of sep cs] by (cases "split sep cs") auto
qed

lemma piece_count_commas: "piece_count s = Suc (count_list s CHR '','')"
  by (simp add: piece_count_def length_split)

lemma comma_step_cases:
  "comma_step ns use_ns units ([], []) u =
     (if is_name_unit u \<and> source_count ns use_ns u < target_count ns use_ns u
      then ([mismatch_record ns use_ns units u], [])
      else if is_name_unit u \<and> target_count ns use_ns u < source_count ns use_ns u
      then ([], [mismatch_record ns use_ns units u])
      else ([], []))"
  by (auto simp add: comma_step_def is_name_unit_def source_count_def target_count_def
        piece_count_def mismatch_record_def Let_def)

lemma comma_step_append:
  "comma_step ns use_ns units acc u =
     (fst acc @ fst (comma_step ns use_ns units ([], []) u),
      snd acc @ snd (comma_step ns use_ns units ([], []) u))"
  by (simp add: comma_step_def Let_def)

lemma comma_loop:
  "foldl (comma_step ns use_ns all) ([], []) units =
     (map (mismatch_record ns use_ns all)
        (filter (\<lambda>u. is_name_unit u \<and> source_count ns use_ns u < target_count ns use_ns u) units),
      map (mismatch_record ns use_ns all)
        (filter (\<lambda>u. is_name_unit u \<and> target_count ns use_ns u < source_count ns use_ns u) units))"
proof -
  have "foldl (comma_step ns use_ns all) ([], []) units =
     (concat (map (\<lambda>u. fst (comma_step ns use_ns all ([], []) u)) units),
      concat (map (\<lambda>u. snd (comma_step ns use_ns all ([], []) u)) units))"
    using foldl_pair_append_step [of "comma_step ns use_ns all" "([], [])" units,
        OF comma_step_append]
    by simp
  moreover have "(\<lambda>u. fst (comma_step ns use_ns all ([], []) u)) =
      (\<lambda>u. if is_name_unit u \<and> source_count ns use_ns u < target_count ns use_ns u
            then [mismatch_record ns use_ns all u] else [])"
    by (rule ext) (simp add: comma_step_cases)
  moreover have "(\<lambda>u. snd (comma_step ns use_ns all ([], []) u)) =
      (\<lambda>u. if is_name_unit u \<and> target_count ns use_ns u < source_count ns use_ns u
            then [mismatch_record ns use_ns all u] else [])"
    by (rule ext) (auto simp add: comma_step_cases)
  ultimately show ?thesis by (simp add: concat_map_if)
qed

text \<open>
  Claim C5.  Of the translation units of the document, in document order, the list
  \<open>increased\<close> holds the records of the names whose target has more pieces than the
  source, and \<open>decreased\<close> those of the names whose target has fewer; a record holds
  the two counts.  So a name gives a record if and only if the counts differ, a unit
  that is not a name gives none, and each list keeps the order of the document.  A
  text has one piece more than it has commas: one piece without a comma, and one for
  the empty text.
\<close>

theorem list_length_mismatch:
  assumes "comma_lists (Some root) = Inr (increased, decreased)"
  shows "\<exists>ns use_ns units.
           detect_ns ''urn:oasis:names:tc:xliff:document:1.2'' root = Inr (ns, use_ns) \<and>
           units = findall_desc root (path_tag ns use_ns ''trans-unit'') \<and>
           increased = map (mismatch_record ns use_ns units)
             (filter (\<lambda>u. is_name_unit u \<and> source_count ns use_ns u < target_count ns use_ns u)
                units) \<and>
           decreased = map (mismatch_record ns use_ns units)
             (filter (\<lambda>u. is_name_unit u \<and> target_count ns use_ns u < source_count ns use_ns u)
                units) \<and>
           (\<forall>u \<in> set units. is_name_unit u \<longrightarrow>
              (mismatch_record ns use_ns units u \<in> set increased \<union> set decreased \<longleftrightarrow>
               source_count ns use_ns u \<noteq> target_count ns use_ns u)) \<and>
           (\<forall>u. cl_source_count (mismatch_record ns use_ns units u) = source_count ns use_ns u \<and>
                cl_target_count (mismatch_record ns use_ns units u) = target_count ns use_ns u) \<and>
           (\<forall>s. piece_count s = Suc (count_list s CHR '',''))"
proof -
  from assms obtain ns use_ns where
    d: "detect_ns ''urn:oasis:names:tc:xliff:document:1.2'' root = Inr (ns, use_ns)"
    by (auto simp add: comma_lists_def split: sum.splits)
  define units where "units = findall_desc root (path_tag ns use_ns ''trans-unit'')"
  let ?longer = "\<lambda>u. is_name_unit u \<and> source_count ns use_ns u < target_count ns use_ns u"
  let ?shorter = "\<lambda>u. is_name_unit u \<and> target_count ns use_ns u < source_count ns use_ns u"
  from assms d have "foldl (comma_step ns use_ns units) ([], []) units = (increased, decreased)"
    by (simp add: comma_lists_def units_def Let_def)
  then have res: "increased = map (mismatch_record ns use_ns units) (filter ?longer units)"
    "decreased = map (mismatch_record ns use_ns units) (filter ?shorter units)"
    by (simp_all add: comma_loop)
  have iff: "mismatch_record ns use_ns units u \<in> set increased \<union> set decreased \<longleftrightarrow>
        source_count ns use_ns u \<noteq> target_count ns use_ns u"
    if u: "u \<in> set units" "is_name_unit u" for u
  proof
    assume "mismatch_record ns use_ns units u \<in> set increased \<union> set decreased"
    then obtain v where v: "v \<in> set units" "?longer v \<or> ?shorter v"
      "mismatch_record ns use_ns units v = mismatch_record ns use_ns units u"
      using res by auto
    from v(3) have "source_count ns use_ns v = source_count ns use_ns u"
      "target_count ns use_ns v = target_count ns use_ns u"
      by (simp_all add: mismatch_record_def)
    with v(2) show "source_count ns use_ns u \<noteq> target_count ns use_ns u" by auto
  next
    assume "source_count ns use_ns u \<noteq> target_count ns use_ns u"
    with u have "?longer u \<or> ?shorter u" by auto
    with u(1) show "mismatch_record ns use_ns units u \<in> set increased \<union> set decreased"
      using res by auto
  qed
  have counts: "cl_source_count (mismatch_record ns use_ns units u) = source_count ns use_ns u \<and>
      cl_target_count (mismatch_record ns use_ns units u) = target_count ns use_ns u" for u
    by (simp add: mismatch_record_def)
  from d res iff counts units_def show ?thesis
    by (auto simp add: piece_count_commas simp del: set_filter)
qed

text \<open>
  The specification's examples: \<^verbatim>\<open>a\<close> against \<^verbatim>\<open>a, b\<close> is in the list of longer targets
  with the counts 1 and 2, \<^verbatim>\<open>a, b, c\<close> against \<^verbatim>\<open>x, y\<close> in the list of shorter ones with
  3 and 2; two against two pieces and the empty source against one piece give nothing.
\<close>

lemma ex_lists_result: "comma_lists (Some ex_lists) = Inr ([ex_longer], [ex_shorter])"
  by (simp add: comma_lists_def comma_step_def unit_id_of_def abbr_source_of_def
        target_state_of_def ex_longer_def ex_shorter_def ex_defs el_defs str_defs Let_def)

theorem list_length_mismatch_witness:
  "comma_lists (Some ex_lists) = Inr ([ex_longer], [ex_shorter]) \<and>
   cl_source_count ex_longer = 1 \<and> cl_target_count ex_longer = 2 \<and>
   cl_source_count ex_shorter = 3 \<and> cl_target_count ex_shorter = 2 \<and>
   piece_count '''' = 1 \<and>
   (\<exists>ns use_ns units.
      detect_ns ''urn:oasis:names:tc:xliff:document:1.2'' ex_lists = Inr (ns, use_ns) \<and>
      units = findall_desc ex_lists (path_tag ns use_ns ''trans-unit'') \<and>
      [ex_longer] = map (mismatch_record ns use_ns units)
        (filter (\<lambda>u. is_name_unit u \<and> source_count ns use_ns u < target_count ns use_ns u)
           units) \<and>
      [ex_shorter] = map (mismatch_record ns use_ns units)
        (filter (\<lambda>u. is_name_unit u \<and> target_count ns use_ns u < source_count ns use_ns u)
           units) \<and>
      (\<forall>u \<in> set units. is_name_unit u \<longrightarrow>
         (mismatch_record ns use_ns units u \<in> set [ex_longer] \<union> set [ex_shorter] \<longleftrightarrow>
          source_count ns use_ns u \<noteq> target_count ns use_ns u)) \<and>
      (\<forall>u. cl_source_count (mismatch_record ns use_ns units u) = source_count ns use_ns u \<and>
           cl_target_count (mismatch_record ns use_ns units u) = target_count ns use_ns u) \<and>
      (\<forall>s. piece_count s = Suc (count_list s CHR '','')))"
proof -
  have "cl_source_count ex_longer = 1 \<and> cl_target_count ex_longer = 2 \<and>
        cl_source_count ex_shorter = 3 \<and> cl_target_count ex_shorter = 2 \<and>
        piece_count '''' = 1"
    by (simp add: ex_longer_def ex_shorter_def piece_count_def)
  with list_length_mismatch [OF ex_lists_result] ex_lists_result
  show ?thesis by blast
qed

section \<open>Targets that need translation\<close>

lemma resolve_step_Name:
  assumes "endswith (get_default u ''id'' '''') ''_Name''"
  shows "resolve_step ns use_ns gd u =
     gd\<lparr>name_source := extract_text (find_child u (path_tag ns use_ns ''source'')),
        name_target_state := target_state_of (find_child u (path_tag ns use_ns ''target'')),
        name_target :=
          (if target_state_of (find_child u (path_tag ns use_ns ''target'')) = ''needs-translation''
           then '''' else extract_text (find_child u (path_tag ns use_ns ''target'')))\<rparr>"
  using assms Name_not_Abbr [OF assms] by (simp add: resolve_step_def Let_def)

lemma resolve_step_Desc:
  assumes "endswith (get_default u ''id'' '''') ''_Desc_0''"
  shows "resolve_step ns use_ns gd u =
     gd\<lparr>desc_source := extract_text (find_child u (path_tag ns use_ns ''source'')),
        desc_target_state := target_state_of (find_child u (path_tag ns use_ns ''target'')),
        desc_target :=
          (if target_state_of (find_child u (path_tag ns use_ns ''target'')) = ''needs-translation''
           then '''' else extract_text (find_child u (path_tag ns use_ns ''target'')))\<rparr>"
  using assms Desc_not_Abbr [OF assms] Desc_not_Name [OF assms]
  by (simp add: resolve_step_def Let_def)

text \<open>The suppression rule holds of the empty fields and every unit keeps it.\<close>

lemma resolve_step_suppressed: "suppressed gd \<Longrightarrow> suppressed (resolve_step ns use_ns gd u)"
  by (simp add: resolve_step_def suppressed_def Let_def)

lemma resolve_group_suppressed: "suppressed (resolve_group ns use_ns grp)"
proof -
  have "suppressed empty_group_data"
    by (simp add: suppressed_def empty_group_data_def)
  then show ?thesis
    unfolding resolve_group_def
    by (rule foldl_invariant) (rule resolve_step_suppressed)
qed

text \<open>
  Claim C4, as amended.  In snapshot resolution a name or description target whose
  state is \<^verbatim>\<open>needs-translation\<close> resolves to the empty text, whatever text is stored:
  for the unit that sets the field, and so for every entry of every snapshot.  The
  list-length rule does not suppress: in each of its records the target text is the
  stored text of the unit.
\<close>

theorem snapshot_suppression:
  "(endswith (get_default u ''id'' '''') ''_Name'' \<and>
    target_state_of (find_child u (path_tag ns use_ns ''target'')) = ''needs-translation'' \<longrightarrow>
      name_target (resolve_step ns use_ns gd u) = '''') \<and>
   (endswith (get_default u ''id'' '''') ''_Desc_0'' \<and>
    target_state_of (find_child u (path_tag ns use_ns ''target'')) = ''needs-translation'' \<longrightarrow>
      desc_target (resolve_step ns use_ns gd u) = '''') \<and>
   (parse_xlf_file f = Inr (data, order) \<and> data g = Some d \<longrightarrow>
      (name_target_state d = ''needs-translation'' \<longrightarrow> name_target d = '''') \<and>
      (desc_target_state d = ''needs-translation'' \<longrightarrow> desc_target d = '''')) \<and>
   (\<forall>r \<in> set (fst (comma_step ns use_ns units ([], []) u)) \<union>
          set (snd (comma_step ns use_ns units ([], []) u)).
      cl_name_target r = extract_text (find_child u (path_tag ns use_ns ''target'')))"
proof -
  have "suppressed d" if "parse_xlf_file f = Inr (data, order)" "data g = Some d"
    using parse_xlf_file_lookup [OF that] resolve_group_suppressed by blast
  moreover have "\<forall>r \<in> set (fst (comma_step ns use_ns units ([], []) u)) \<union>
          set (snd (comma_step ns use_ns units ([], []) u)).
      cl_name_target r = extract_text (find_child u (path_tag ns use_ns ''target''))"
    by (simp add: comma_step_cases mismatch_record_def)
  ultimately show ?thesis
    by (auto simp add: resolve_step_Name resolve_step_Desc suppressed_def)
qed

text \<open>
  A group whose name and description are both in the state \<^verbatim>\<open>needs-translation\<close> with
  stored text: the snapshot has empty targets, the record of the list-length rule has
  the stored text.
\<close>

lemma ex_pending_snapshot:
  "parse_xlf_file (Some ex_pending) = Inr ([''1'' \<mapsto> ex_pending_data], [''1''])"
  by (simp add: parse_defs ex_defs el_defs str_defs ex_pending_data_def)

lemma ex_pending_lists: "comma_lists (Some ex_pending) = Inr ([ex_pending_record], [])"
  by (simp add: comma_lists_def comma_step_def unit_id_of_def abbr_source_of_def
        target_state_of_def ex_pending_record_def ex_defs el_defs str_defs Let_def)

theorem snapshot_suppression_witness:
  "endswith (get_default ex_pending_unit ''id'' '''') ''_Name'' \<and>
   target_state_of (find_child ex_pending_unit (path_tag '''' False ''target'')) =
     ''needs-translation'' \<and>
   extract_text (find_child ex_pending_unit (path_tag '''' False ''target'')) =
     ''Ceu, Firmamento'' \<and>
   name_target (resolve_step '''' False empty_group_data ex_pending_unit) = '''' \<and>
   endswith (get_default ex_pending_desc ''id'' '''') ''_Desc_0'' \<and>
   target_state_of (find_child ex_pending_desc (path_tag '''' False ''target'')) =
     ''needs-translation'' \<and>
   desc_target (resolve_step '''' False empty_group_data ex_pending_desc) = '''' \<and>
   parse_xlf_file (Some ex_pending) = Inr ([''1'' \<mapsto> ex_pending_data], [''1'']) \<and>
   [''1'' \<mapsto> ex_pending_data] ''1'' = Some ex_pending_data \<and>
   name_target_state ex_pending_data = ''needs-translation'' \<and>
   name_target ex_pending_data = '''' \<and>
   desc_target_state ex_pending_data = ''needs-translation'' \<and>
   desc_target ex_pending_data = '''' \<and>
   map cl_name_target (fst (comma_step '''' False [] ([], []) ex_pending_unit)) =
     [''Ceu, Firmamento'']"
proof -
  have facts:
    "endswith (get_default ex_pending_unit ''id'' '''') ''_Name''"
    "target_state_of (find_child ex_pending_unit (path_tag '''' False ''target'')) =
       ''needs-translation''"
    "extract_text (find_child ex_pending_unit (path_tag '''' False ''target'')) =
       ''Ceu, Firmamento''"
    "endswith (get_default ex_pending_desc ''id'' '''') ''_Desc_0''"
    "target_state_of (find_child ex_pending_desc (path_tag '''' False ''target'')) =
       ''needs-translation''"
    "[''1'' \<mapsto> ex_pending_data] ''1'' = Some ex_pending_data"
    "name_target_state ex_pending_data = ''needs-translation''"
    "desc_target_state ex_pending_data = ''needs-translation''"
    by (simp_all add: ex_defs el_defs str_defs target_state_of_def ex_pending_data_def)
  have rec: "map cl_name_target (fst (comma_step '''' False [] ([], []) ex_pending_unit)) =
     [''Ceu, Firmamento'']"
    by (simp add: comma_step_def unit_id_of_def abbr_source_of_def target_state_of_def
          ex_defs el_defs str_defs Let_def)
  from facts rec ex_pending_snapshot
    snapshot_suppression [of ex_pending_unit "''''" False empty_group_data
      "Some ex_pending" "[''1'' \<mapsto> ex_pending_data]" "[''1'']" "''1''" ex_pending_data "[]"]
    snapshot_suppression [of ex_pending_desc "''''" False empty_group_data
      "Some ex_pending" "[''1'' \<mapsto> ex_pending_data]" "[''1'']" "''1''" ex_pending_data "[]"]
  show ?thesis by simp
qed

text \<open>
  Claim C4 as it is stated fails for the list-length rule.  The name of the example
  has the state \<^verbatim>\<open>needs-translation\<close>, one piece in its source and two in its stored
  target.  With the target read as empty the counts would be one and one and there
  would be no record, as for the document with emptied targets; the rule reports the
  name with the stored text and the counts one and two.
\<close>

theorem needs_translation_list_length_counterexample:
  "target_state_of (find_child ex_pending_unit (path_tag '''' False ''target'')) =
     ''needs-translation'' \<and>
   comma_lists (Some ex_pending) = Inr ([ex_pending_record], []) \<and>
   cl_name_target ex_pending_record = ''Ceu, Firmamento'' \<and>
   cl_target_state ex_pending_record = ''needs-translation'' \<and>
   cl_source_count ex_pending_record = 1 \<and>
   cl_target_count ex_pending_record = 2 \<and>
   comma_lists (Some ex_pending_emptied) = Inr ([], []) \<and>
   comma_lists (Some ex_pending) \<noteq> comma_lists (Some ex_pending_emptied)"
proof -
  have "target_state_of (find_child ex_pending_unit (path_tag '''' False ''target'')) =
     ''needs-translation''"
    by (simp add: ex_defs el_defs target_state_of_def)
  moreover have "comma_lists (Some ex_pending_emptied) = Inr ([], [])"
    by (simp add: comma_lists_def comma_step_def unit_id_of_def abbr_source_of_def
        target_state_of_def ex_defs el_defs str_defs Let_def)
  moreover have "cl_name_target ex_pending_record = ''Ceu, Firmamento'' \<and>
      cl_target_state ex_pending_record = ''needs-translation'' \<and>
      cl_source_count ex_pending_record = 1 \<and> cl_target_count ex_pending_record = 2"
    by (simp add: ex_pending_record_def)
  ultimately show ?thesis
    using ex_pending_lists by simp
qed

section \<open>Identical translations\<close>

lemma identical_step_append:
  "identical_step results u = results @ identical_step [] u"
  by (simp add: identical_step_def Let_def split: option.splits)

lemma identical_loop_concat:
  "foldl identical_step [] units = concat (map (identical_step []) units)"
proof -
  have "foldl identical_step [] units = [] @ concat (map (identical_step []) units)"
    by (rule foldl_append_step) (rule identical_step_append)
  then show ?thesis by simp
qed

lemma find_identical_concat:
  "find_identical_translations (Some root) =
     Inr (concat (map (identical_step [])
            (findall_desc root (path_tag xliff_ns True ''trans-unit''))))"
  by (simp add: find_identical_translations_def identical_loop_concat)

text \<open>A unit that one of the two filters excludes gives no record.\<close>

lemma identical_step_excluded:
  assumes "abbr_excluded u \<or> state_excluded u"
  shows "identical_step [] u = []"
  using assms
  by (auto simp add: identical_step_def abbr_excluded_def state_excluded_def target_of_def
        Let_def split: option.splits)

text \<open>
  A unit that no filter excludes gives what its rule records for its two texts, and
  nothing when it lacks the source or the target element.
\<close>

lemma identical_step_rule:
  assumes "\<not> abbr_excluded u" and "\<not> state_excluded u"
  shows "identical_step [] u =
     (case unit_texts u of None \<Rightarrow> [] | Some (src, tgt) \<Rightarrow> rule_records u src tgt)"
proof (cases "unit_texts u")
  case None
  then show ?thesis
    using assms
    by (auto simp add: identical_step_def unit_texts_def source_of_def target_of_def Let_def
          abbr_excluded_def split: option.splits)
next
  case (Some p)
  then obtain s t where st: "source_of u = Some s" "target_of u = Some t"
    "p = (text_or_empty s, text_or_empty t)"
    by (auto simp add: unit_texts_def split: option.splits)
  from assms(2) st(2) have ns: "get t ''state'' \<noteq> Some ''needs-translation''"
    by (simp add: state_excluded_def)
  show ?thesis
    using assms(1) st ns Some
    by (simp add: identical_step_def unit_texts_def source_of_def target_of_def Let_def
          abbr_excluded_def rule_records_def rule_of_def approved_def translate_suppressed_def
          matched_pieces_def it_record_def)
qed

text \<open>
  Claim C3.  For a translation unit that neither filter excludes, the two flags select
  exactly one of four rules, and the unit's contribution to the results is what that
  rule records for the unit's source and target text (a unit without a source or
  without a target element has no texts and contributes nothing).  Approved and not
  suppressed: a record if and only if some non-empty trimmed comma piece of the target
  occurs in the raw source text, and the record holds exactly those pieces.  Approved
  and suppressed, or not approved and not suppressed: a record if and only if the two
  texts are equal.  Not approved and suppressed: never a record.  The unit's
  identifier is its \<^verbatim>\<open>resname\<close>, the attribute in which the export keeps it.
\<close>

theorem identical_rule_table:
  assumes "\<not> abbr_excluded u" and "\<not> state_excluded u"
  shows "identical_step [] u =
           (case unit_texts u of None \<Rightarrow> [] | Some (src, tgt) \<Rightarrow> rule_records u src tgt) \<and>
         (rule_of u = Comma_Split \<longleftrightarrow> approved u \<and> \<not> translate_suppressed u) \<and>
         (rule_of u = Identical_Suppressed \<longleftrightarrow> approved u \<and> translate_suppressed u) \<and>
         (rule_of u = Identical_Not_Approved \<longleftrightarrow> \<not> approved u \<and> \<not> translate_suppressed u) \<and>
         (rule_of u = No_Record \<longleftrightarrow> \<not> approved u \<and> translate_suppressed u) \<and>
         (\<forall>src tgt. unit_texts u = Some (src, tgt) \<longrightarrow>
            (rule_of u = Comma_Split \<longrightarrow>
               (identical_step [] u \<noteq> [] \<longleftrightarrow> matched_pieces src tgt \<noteq> []) \<and>
               map it_matching_pieces (identical_step [] u) =
                 (if matched_pieces src tgt \<noteq> [] then [matched_pieces src tgt] else [])) \<and>
            (rule_of u = Identical_Suppressed \<longrightarrow> (identical_step [] u \<noteq> [] \<longleftrightarrow> src = tgt)) \<and>
            (rule_of u = Identical_Not_Approved \<longrightarrow> (identical_step [] u \<noteq> [] \<longleftrightarrow> src = tgt)) \<and>
            (rule_of u = No_Record \<longrightarrow> identical_step [] u = []))"
proof -
  have step: "identical_step [] u =
      (case unit_texts u of None \<Rightarrow> [] | Some (src, tgt) \<Rightarrow> rule_records u src tgt)"
    using assms by (rule identical_step_rule)
  have rules: "(rule_of u = Comma_Split \<longleftrightarrow> approved u \<and> \<not> translate_suppressed u) \<and>
         (rule_of u = Identical_Suppressed \<longleftrightarrow> approved u \<and> translate_suppressed u) \<and>
         (rule_of u = Identical_Not_Approved \<longleftrightarrow> \<not> approved u \<and> \<not> translate_suppressed u) \<and>
         (rule_of u = No_Record \<longleftrightarrow> \<not> approved u \<and> translate_suppressed u)"
    by (simp add: rule_of_def)
  have per_rule: "(rule_of u = Comma_Split \<longrightarrow>
               (identical_step [] u \<noteq> [] \<longleftrightarrow> matched_pieces src tgt \<noteq> []) \<and>
               map it_matching_pieces (identical_step [] u) =
                 (if matched_pieces src tgt \<noteq> [] then [matched_pieces src tgt] else [])) \<and>
            (rule_of u = Identical_Suppressed \<longrightarrow> (identical_step [] u \<noteq> [] \<longleftrightarrow> src = tgt)) \<and>
            (rule_of u = Identical_Not_Approved \<longrightarrow> (identical_step [] u \<noteq> [] \<longleftrightarrow> src = tgt)) \<and>
            (rule_of u = No_Record \<longrightarrow> identical_step [] u = [])"
    if "unit_texts u = Some (src, tgt)" for src tgt
    using that step by (simp add: rule_records_def it_record_def)
  from step rules per_rule show ?thesis by blast
qed

text \<open>
  The specification's examples, on units in the namespace of XLIFF 1.2: the colours
  give the one piece \<^verbatim>\<open>green\<close>; the approved, suppressed fish gives a record when the
  target is \<^verbatim>\<open>Fish\<close> and none when it is \<^verbatim>\<open>Peixe\<close>; the unapproved bird gives a
  record; the unapproved, suppressed sun gives none although its texts are equal.
\<close>

theorem identical_rule_table_witness:
  "\<not> abbr_excluded (qualify xliff_ns ex_colours) \<and>
   \<not> state_excluded (qualify xliff_ns ex_colours) \<and>
   unit_texts (qualify xliff_ns ex_colours) = Some (''red, green, blue'', ''vermelho, green'') \<and>
   rule_of (qualify xliff_ns ex_colours) = Comma_Split \<and>
   matched_pieces ''red, green, blue'' ''vermelho, green'' = [''green''] \<and>
   identical_step [] (qualify xliff_ns ex_colours) = [ex_rec_colours] \<and>
   \<not> abbr_excluded (qualify xliff_ns ex_fish) \<and>
   \<not> state_excluded (qualify xliff_ns ex_fish) \<and>
   rule_of (qualify xliff_ns ex_fish) = Identical_Suppressed \<and>
   identical_step [] (qualify xliff_ns ex_fish) = [ex_rec_fish] \<and>
   rule_of (qualify xliff_ns ex_fish_translated) = Identical_Suppressed \<and>
   identical_step [] (qualify xliff_ns ex_fish_translated) = [] \<and>
   \<not> abbr_excluded (qualify xliff_ns ex_bird) \<and>
   \<not> state_excluded (qualify xliff_ns ex_bird) \<and>
   rule_of (qualify xliff_ns ex_bird) = Identical_Not_Approved \<and>
   identical_step [] (qualify xliff_ns ex_bird) = [ex_rec_bird] \<and>
   \<not> abbr_excluded (qualify xliff_ns ex_locked) \<and>
   \<not> state_excluded (qualify xliff_ns ex_locked) \<and>
   rule_of (qualify xliff_ns ex_locked) = No_Record \<and>
   unit_texts (qualify xliff_ns ex_locked) = Some (''Sun'', ''Sun'') \<and>
   identical_step [] (qualify xliff_ns ex_locked) = []"
  using identical_rule_table [of "qualify xliff_ns ex_colours"]
    identical_rule_table [of "qualify xliff_ns ex_fish"]
    identical_rule_table [of "qualify xliff_ns ex_bird"]
    identical_rule_table [of "qualify xliff_ns ex_locked"]
  by (simp add: identical_defs ex_defs el_defs str_defs ex_rec_colours_def ex_rec_fish_def
        ex_rec_bird_def)

section \<open>The order of the report of identical translations\<close>

lemma insort_key_append_less:
  "\<forall>y \<in> set ys. f y < f x \<Longrightarrow> insort_key f x (ys @ zs) = ys @ insort_key f x zs"
  by (induction ys) auto

lemma insort_key_least:
  "\<forall>y \<in> set ys. f x \<le> f y \<Longrightarrow> insort_key f x ys = x # ys"
  by (cases ys) auto

text \<open>A stable sort by a key with three values puts the three classes one after the other.\<close>

lemma sort_key_three:
  fixes f :: "'a \<Rightarrow> nat"
  assumes "\<forall>x \<in> set xs. f x = 1 \<or> f x = 2 \<or> f x = 3"
  shows "sort_key f xs =
     filter (\<lambda>x. f x = 1) xs @ filter (\<lambda>x. f x = 2) xs @ filter (\<lambda>x. f x = 3) xs"
  using assms
proof (induction xs)
  case Nil
  show ?case by simp
next
  case (Cons x xs)
  let ?A = "filter (\<lambda>x. f x = 1) xs" and ?B = "filter (\<lambda>x. f x = 2) xs"
    and ?C = "filter (\<lambda>x. f x = 3) xs"
  from Cons have IH: "sort_key f xs = ?A @ ?B @ ?C" by simp
  from Cons.prems have "f x = 1 \<or> f x = 2 \<or> f x = 3" by simp
  then consider (one) "f x = 1" | (two) "f x = 2" | (three) "f x = 3" by blast
  then show ?case
  proof cases
    case one
    have "insort_key f x (?A @ ?B @ ?C) = x # ?A @ ?B @ ?C"
      by (rule insort_key_least) (auto simp add: one)
    with one IH show ?thesis by simp
  next
    case two
    have "insort_key f x (?A @ ?B @ ?C) = ?A @ insort_key f x (?B @ ?C)"
      by (rule insort_key_append_less) (simp add: two)
    moreover have "insort_key f x (?B @ ?C) = x # ?B @ ?C"
      by (rule insort_key_least) (auto simp add: two)
    ultimately show ?thesis using two IH by simp
  next
    case three
    have "insort_key f x (?A @ ?B @ ?C) = ?A @ insort_key f x (?B @ ?C)"
      by (rule insort_key_append_less) (simp add: three)
    moreover have "insort_key f x (?B @ ?C) = ?B @ insort_key f x ?C"
      by (rule insort_key_append_less) (simp add: three)
    moreover have "insort_key f x ?C = x # ?C"
      by (rule insort_key_least) (auto simp add: three)
    ultimately show ?thesis using three IH by simp
  qed
qed

lemma identical_step_types:
  assumes "r \<in> set (identical_step [] u)"
  shows "it_type r = ''approved (comma-split)'' \<or>
         it_type r = ''approved + translate=no (identical)'' \<or>
         it_type r = ''not approved (identical)''"
  using assms
  by (auto simp add: identical_step_def Let_def split: option.splits if_splits)

lemma identical_step_type_order:
  assumes "r \<in> set (identical_step [] u)"
  shows "type_order (it_type r) = 1 \<or> type_order (it_type r) = 2 \<or>
         type_order (it_type r) = 3"
  using identical_step_types [OF assms] by (auto simp add: type_order_def)

lemma type_order_cases:
  "(type_order t = 1 \<longleftrightarrow> t = ''approved (comma-split)'') \<and>
   (type_order t = 2 \<longleftrightarrow> t = ''approved + translate=no (identical)'') \<and>
   (type_order t = 3 \<longleftrightarrow> t = ''not approved (identical)'')"
  by (simp add: type_order_def)

text \<open>
  Claim C7.  A unit whose identifier (its \<^verbatim>\<open>resname\<close>) ends in \<^verbatim>\<open>_Abbr\<close>, and a unit
  whose target has the state \<^verbatim>\<open>needs-translation\<close>, leaves the results as they are.
  The results are the contributions of the document's units in document order, and
  the report lists them by rule: the comma-split records, then the records of approved
  suppressed identical units, then those of unapproved identical units, each class in
  document order.
\<close>

theorem identical_exclusion_and_order:
  "(abbr_excluded u \<or> state_excluded u \<longrightarrow> identical_step results u = results) \<and>
   find_identical_translations (Some root) =
     Inr (concat (map (identical_step [])
            (findall_desc root (path_tag xliff_ns True ''trans-unit'')))) \<and>
   (\<forall>rs. find_identical_translations (Some root) = Inr rs \<longrightarrow>
      sorted_results (Some root) =
        Inr (filter (\<lambda>r. it_type r = ''approved (comma-split)'') rs @
             filter (\<lambda>r. it_type r = ''approved + translate=no (identical)'') rs @
             filter (\<lambda>r. it_type r = ''not approved (identical)'') rs))"
proof -
  have excl: "identical_step results u = results" if "abbr_excluded u \<or> state_excluded u"
    using identical_step_append [of results u] identical_step_excluded [OF that] by simp
  have order: "sorted_results (Some root) =
        Inr (filter (\<lambda>r. it_type r = ''approved (comma-split)'') rs @
             filter (\<lambda>r. it_type r = ''approved + translate=no (identical)'') rs @
             filter (\<lambda>r. it_type r = ''not approved (identical)'') rs)"
    if rs: "find_identical_translations (Some root) = Inr rs" for rs
  proof -
    from rs have "rs = concat (map (identical_step [])
            (findall_desc root (path_tag xliff_ns True ''trans-unit'')))"
      by (simp add: find_identical_concat)
    then have "\<forall>r \<in> set rs. type_order (it_type r) = 1 \<or> type_order (it_type r) = 2 \<or>
        type_order (it_type r) = 3"
      using identical_step_type_order by auto
    then have "sort_key (\<lambda>r. type_order (it_type r)) rs =
        filter (\<lambda>r. type_order (it_type r) = 1) rs @
        filter (\<lambda>r. type_order (it_type r) = 2) rs @
        filter (\<lambda>r. type_order (it_type r) = 3) rs"
      by (rule sort_key_three)
    then have "sort_key (\<lambda>r. type_order (it_type r)) rs =
        filter (\<lambda>r. it_type r = ''approved (comma-split)'') rs @
        filter (\<lambda>r. it_type r = ''approved + translate=no (identical)'') rs @
        filter (\<lambda>r. it_type r = ''not approved (identical)'') rs"
      by (simp only: type_order_cases)
    with rs show ?thesis by (simp add: sorted_results_def)
  qed
  from excl order find_identical_concat show ?thesis by blast
qed

text \<open>
  The export in the namespace holds, in this order, the bird, an abbreviation, the
  fish, the translated fish, the sun, an untranslated tree and the colours.  The
  abbreviation and the tree are excluded; the results are the bird, the fish and the
  colours, and the report has them as colours, fish, bird.
\<close>

lemma ex_export_ns_results:
  "find_identical_translations (Some ex_export_ns) = Inr [ex_rec_bird, ex_rec_fish, ex_rec_colours]"
  by (simp add: find_identical_translations_def identical_defs ex_defs el_defs str_defs
        ex_rec_colours_def ex_rec_fish_def ex_rec_bird_def)

theorem identical_exclusion_and_order_witness:
  "abbr_excluded (qualify xliff_ns ex_abbr) \<and>
   identical_step [ex_rec_bird] (qualify xliff_ns ex_abbr) = [ex_rec_bird] \<and>
   state_excluded (qualify xliff_ns ex_untranslated) \<and>
   unit_texts (qualify xliff_ns ex_untranslated) = Some (''Tree'', ''Tree'') \<and>
   identical_step [ex_rec_bird] (qualify xliff_ns ex_untranslated) = [ex_rec_bird] \<and>
   find_identical_translations (Some ex_export_ns) =
     Inr [ex_rec_bird, ex_rec_fish, ex_rec_colours] \<and>
   sorted_results (Some ex_export_ns) = Inr [ex_rec_colours, ex_rec_fish, ex_rec_bird]"
proof -
  have excluded: "abbr_excluded (qualify xliff_ns ex_abbr)"
    "state_excluded (qualify xliff_ns ex_untranslated)"
    "unit_texts (qualify xliff_ns ex_untranslated) = Some (''Tree'', ''Tree'')"
    by (simp_all add: identical_defs ex_defs el_defs str_defs)
  have types: "it_type ex_rec_bird = ''not approved (identical)''"
    "it_type ex_rec_fish = ''approved + translate=no (identical)''"
    "it_type ex_rec_colours = ''approved (comma-split)''"
    by (simp_all add: ex_rec_colours_def ex_rec_fish_def ex_rec_bird_def)
  from excluded types ex_export_ns_results
    identical_exclusion_and_order [of "qualify xliff_ns ex_abbr" "[ex_rec_bird]" ex_export_ns]
    identical_exclusion_and_order [of "qualify xliff_ns ex_untranslated" "[ex_rec_bird]"
      ex_export_ns]
  show ?thesis by simp
qed

section \<open>Namespaces\<close>

text \<open>
  The scripts that read the namespace off the root give the same result for a document
  without a namespace and for the same document in a namespace, for every URI without
  a closing brace (and, where semantic domain groups are looked for, without the
  letters \<^verbatim>\<open>guid\<close>, which the group test would find in every tag).
\<close>

lemma qualify_sel:
  "tag (qualify uri e) = ''{'' @ uri @ ''}'' @ tag e"
  "attrib (qualify uri e) = attrib e"
  "etext (qualify uri e) = etext e"
  "children (qualify uri e) = map (qualify uri) (children e)"
  "etail (qualify uri e) = etail e"
  by (cases e; simp)+

lemma iter_qualify: "iter (qualify uri e) = map (qualify uri) (iter e)"
  by (induction e) (simp add: map_concat cong: map_cong)

lemma itertext_qualify: "itertext (qualify uri e) = itertext e"
  by (induction e) (simp add: qualify_sel cong: map_cong)

lemma tag_qualify_eq:
  "tag (qualify uri e) = path_tag uri True l \<longleftrightarrow> tag e = path_tag dflt False l"
  by (simp add: qualify_sel path_tag_def)

lemma findall_desc_qualify:
  "findall_desc (qualify uri e) (path_tag uri True l) =
     map (qualify uri) (findall_desc e (path_tag dflt False l))"
proof -
  have "concat (map iter (children (qualify uri e))) =
      map (qualify uri) (concat (map iter (children e)))"
    by (simp add: qualify_sel map_concat iter_qualify comp_def)
  then show ?thesis
    by (simp add: findall_desc_def filter_map comp_def tag_qualify_eq [of uri _ l dflt])
qed

lemma find_map_option: "List.find P (map f xs) = map_option f (List.find (\<lambda>x. P (f x)) xs)"
  by (induction xs) simp_all

lemma find_child_qualify:
  "find_child (qualify uri e) (path_tag uri True l) =
     map_option (qualify uri) (find_child e (path_tag dflt False l))"
  by (simp add: find_child_def qualify_sel(4) find_map_option tag_qualify_eq [of uri _ l dflt])

lemma extract_text_qualify:
  "extract_text (map_option (qualify uri) x) = extract_text x"
  by (cases x) (simp_all add: extract_text_def itertext_qualify)

lemma get_default_qualify: "get_default (qualify uri e) k d = get_default e k d"
  by (simp add: get_default_def qualify_sel)

lemma target_state_of_qualify:
  "target_state_of (map_option (qualify uri) x) = target_state_of x"
  by (cases x) (simp_all add: target_state_of_def get_default_qualify)

lemma unit_id_of_qualify: "unit_id_of (qualify uri u) = unit_id_of u"
  by (simp add: unit_id_of_def get_default_qualify Let_def)

lemma index_of_first: "c \<notin> set xs \<Longrightarrow> index_of c (xs @ c # ys) = Some (length xs)"
  by (induction xs) auto

lemma detect_ns_qualify:
  assumes "CHR ''}'' \<notin> set uri"
  shows "detect_ns dflt (qualify uri d) = Inr (uri, True)"
proof -
  have "index_of CHR ''}'' ((CHR ''{'' # uri) @ CHR ''}'' # tag d) = Some (length (CHR ''{'' # uri))"
    using assms by (intro index_of_first) simp
  then show ?thesis
    by (simp add: detect_ns_def qualify_sel startswith_def)
qed

lemma detect_ns_plain:
  "\<not> startswith (tag d) ''{'' \<Longrightarrow> detect_ns dflt d = Inr (dflt, False)"
  by (simp add: detect_ns_def)

lemma abbr_source_of_qualify:
  "abbr_source_of uri True (map (qualify uri) all) uid = abbr_source_of dflt False all uid"
  by (simp add: abbr_source_of_def find_map_option unit_id_of_qualify Let_def
        find_child_qualify [of uri _ _ dflt] extract_text_qualify split: option.splits)

lemma comma_step_qualify:
  "comma_step uri True (map (qualify uri) all) acc (qualify uri u) =
     comma_step dflt False all acc u"
  by (simp add: comma_step_def unit_id_of_qualify find_child_qualify [of uri _ _ dflt]
        extract_text_qualify target_state_of_qualify abbr_source_of_qualify [of uri _ _ dflt]
        Let_def)

lemma foldl_map_step: "foldl f a (map g xs) = foldl (\<lambda>a x. f a (g x)) a xs"
  by (induction xs arbitrary: a) simp_all

lemma comma_lists_namespace:
  assumes "CHR ''}'' \<notin> set uri" and "\<not> startswith (tag d) ''{''"
  shows "comma_lists (Some (qualify uri d)) = comma_lists (Some d)"
  using assms
  by (simp add: comma_lists_def detect_ns_qualify detect_ns_plain Let_def
        findall_desc_qualify [of uri _ _ "''urn:oasis:names:tc:xliff:document:1.2''"]
        foldl_map_step comma_step_qualify [of uri _ _ _ "''urn:oasis:names:tc:xliff:document:1.2''"])

lemma sublist_across_separator:
  assumes "c \<notin> set s"
  shows "sublist s (a @ c # b) \<longleftrightarrow> sublist s a \<or> sublist s b"
proof
  assume "sublist s (a @ c # b)"
  then consider "sublist s a" | "sublist s (c # b)"
    | xs1 xs2 where "s = xs1 @ xs2" "suffix xs1 a" "prefix xs2 (c # b)"
    by (auto simp add: sublist_append)
  then show "sublist s a \<or> sublist s b"
  proof cases
    case 1
    then show ?thesis by simp
  next
    case 2
    then have "prefix s (c # b) \<or> sublist s b" by (simp add: sublist_Cons_right)
    moreover have "s = []" if "prefix s (c # b)"
      using that assms by (cases s) auto
    ultimately show ?thesis by auto
  next
    case 3
    from 3(3) assms 3(1) have "xs2 = []" by (cases xs2) auto
    with 3(1,2) have "suffix s a" by simp
    then show ?thesis by (auto intro: suffix_imp_sublist)
  qed
next
  assume "sublist s a \<or> sublist s b"
  then show "sublist s (a @ c # b)"
    by (auto simp add: sublist_append sublist_Cons_right)
qed

lemma suffix_across_separator:
  assumes "c \<notin> set s"
  shows "suffix s (a @ c # b) \<longleftrightarrow> suffix s b"
proof
  assume "suffix s (a @ c # b)"
  then have "suffix s (c # b) \<or> (\<exists>xs'. suffix xs' a \<and> s = xs' @ c # b)"
    by (auto simp add: suffix_append)
  with assms have "suffix s (c # b)" by auto
  with assms show "suffix s b" by (auto simp add: suffix_Cons)
next
  assume "suffix s b"
  then show "suffix s (a @ c # b)"
    by (metis suffix_appendI suffix_ConsI)
qed

lemma endswith_qualify:
  assumes "CHR ''}'' \<notin> set suf"
  shows "endswith (tag (qualify uri e)) suf \<longleftrightarrow> endswith (tag e) suf"
  using suffix_across_separator [OF assms, of "CHR ''{'' # uri" "tag e"]
  by (simp add: endswith_def qualify_sel)

lemma contains_guid_qualify:
  assumes "\<not> contains ''guid'' uri"
  shows "contains ''guid'' (tag (qualify uri e)) \<longleftrightarrow> contains ''guid'' (tag e)"
proof -
  have "sublist ''guid'' ((CHR ''{'' # uri) @ CHR ''}'' # tag e) \<longleftrightarrow>
      sublist ''guid'' (CHR ''{'' # uri) \<or> sublist ''guid'' (tag e)"
    by (rule sublist_across_separator) simp
  moreover have "sublist ''guid'' ([] @ CHR ''{'' # uri) \<longleftrightarrow>
      sublist ''guid'' [] \<or> sublist ''guid'' uri"
    by (rule sublist_across_separator) simp
  ultimately show ?thesis
    using assms by (simp add: contains_def qualify_sel)
qed

lemma list_ex_map: "list_ex P (map f xs) \<longleftrightarrow> list_ex (\<lambda>x. P (f x)) xs"
  by (induction xs) simp_all

lemma has_guid_qualify:
  assumes "\<not> contains ''guid'' uri"
  shows "has_guid (qualify uri g) \<longleftrightarrow> has_guid g"
  by (simp add: has_guid_def qualify_sel(4) list_ex_map contains_guid_qualify [OF assms])

lemma target_groups_qualify:
  assumes "\<not> contains ''guid'' uri"
  shows "target_groups uri True (qualify uri d) = map (qualify uri) (target_groups dflt False d)"
  by (simp add: target_groups_def findall_desc_qualify [of uri _ _ dflt] filter_map comp_def
        has_guid_qualify [OF assms])

lemma collect_step_qualify:
  "collect_step uri True (map (qualify uri) acc) (qualify uri c) =
     map (qualify uri) (collect_step dflt False acc c)"
  by (simp add: collect_step_def get_default_qualify endswith_qualify
        findall_desc_qualify [of uri _ _ dflt] Let_def)

lemma collect_loop_qualify:
  "foldl (collect_step uri True) (map (qualify uri) acc) (map (qualify uri) cs) =
     map (qualify uri) (foldl (collect_step dflt False) acc cs)"
proof (induction cs arbitrary: acc)
  case Nil
  show ?case by simp
next
  case (Cons c cs)
  show ?case
    using Cons.IH [of "collect_step dflt False acc c"]
    by (simp add: collect_step_qualify [of uri _ _ dflt])
qed

lemma collect_trans_units_qualify:
  "collect_trans_units uri True (qualify uri g) =
     map (qualify uri) (collect_trans_units dflt False g)"
  using collect_loop_qualify [of uri "[]" "children g" dflt]
  by (simp add: collect_trans_units_def qualify_sel(4))

lemma resolve_step_qualify:
  "resolve_step uri True gd (qualify uri u) = resolve_step dflt False gd u"
  by (simp add: resolve_step_def get_default_qualify find_child_qualify [of uri _ _ dflt]
        extract_text_qualify target_state_of_qualify Let_def)

lemma resolve_group_qualify:
  "resolve_group uri True (qualify uri g) = resolve_group dflt False g"
  by (simp add: resolve_group_def collect_trans_units_qualify [of uri _ dflt] foldl_map_step
        resolve_step_qualify [of uri _ _ dflt])

lemma parse_step_qualify:
  "parse_step uri True st (qualify uri g) = parse_step dflt False st g"
  by (simp add: parse_step_def get_default_qualify resolve_group_qualify [of uri _ dflt])

lemma parse_xlf_file_namespace:
  assumes "CHR ''}'' \<notin> set uri" and "\<not> contains ''guid'' uri"
    and "\<not> startswith (tag d) ''{''"
  shows "parse_xlf_file (Some (qualify uri d)) = parse_xlf_file (Some d)"
  using assms(1,3)
  by (simp add: parse_xlf_file_def detect_ns_qualify detect_ns_plain
        target_groups_qualify [OF assms(2), of _ "''http://www.w3.org/2001/xliff''"]
        foldl_map_step parse_step_qualify [of uri _ _ "''http://www.w3.org/2001/xliff''"])

lemma compare_files_namespace:
  assumes "CHR ''}'' \<notin> set uri" and "\<not> contains ''guid'' uri"
    and "\<not> startswith (tag d1) ''{''" and "\<not> startswith (tag d2) ''{''"
  shows "compare_files (Some (qualify uri d1)) (Some (qualify uri d2)) ct st =
         compare_files (Some d1) (Some d2) ct st"
  unfolding compare_files_def parse_xlf_file_namespace [OF assms(1,2,3)]
    parse_xlf_file_namespace [OF assms(1,2,4)]
  by (rule refl)

lemma abbr_text_of_qualify:
  "abbr_text_of uri True (qualify uri g) = abbr_text_of dflt False g"
  by (simp add: abbr_text_of_def qualify_sel(4) find_map_option endswith_qualify
        get_default_qualify find_child_qualify [of uri _ _ dflt] extract_text_qualify
        split: option.splits)

lemma match_step_qualify:
  "match_step uri True pt st (qualify uri u) = match_step dflt False pt st u"
  by (simp add: match_step_def get_default_qualify find_child_qualify [of uri _ _ dflt]
        extract_text_qualify Let_def)

lemma extract_step_qualify:
  "extract_step uri True pt acc (qualify uri g) = extract_step dflt False pt acc g"
  by (simp add: extract_step_def abbr_text_of_qualify [of uri _ dflt]
        collect_trans_units_qualify [of uri _ dflt] foldl_map_step
        match_step_qualify [of uri _ _ _ dflt] Let_def)

lemma extract_data_namespace:
  assumes "CHR ''}'' \<notin> set uri" and "\<not> contains ''guid'' uri"
    and "\<not> startswith (tag d) ''{''"
  shows "extract_data (Some (qualify uri d)) pt = extract_data (Some d) pt"
  using assms(1,3)
  by (simp add: extract_data_def detect_ns_qualify detect_ns_plain
        target_groups_qualify [OF assms(2), of _ "''http://www.w3.org/2001/xliff''"]
        foldl_map_step extract_step_qualify [of uri _ _ _ "''http://www.w3.org/2001/xliff''"])

text \<open>
  \<^verbatim>\<open>find_identical_translations\<close> finds no unit in a document without a namespace,
  whatever the document holds.
\<close>

lemma descendants_in_iter: "set (concat (map iter (children d))) \<subseteq> set (iter d)"
  by (cases d) auto

lemma find_identical_plain:
  assumes "\<forall>e \<in> set (iter d). \<not> startswith (tag e) ''{''"
  shows "find_identical_translations (Some d) = Inr []"
proof -
  have "findall_desc d (path_tag xliff_ns True ''trans-unit'') = []"
  proof (rule ccontr)
    assume "findall_desc d (path_tag xliff_ns True ''trans-unit'') \<noteq> []"
    then obtain e where e: "e \<in> set (concat (map iter (children d)))"
      "tag e = path_tag xliff_ns True ''trans-unit''"
      by (auto simp add: findall_desc_def filter_empty_conv)
    from e(1) have "e \<in> set (iter d)" using descendants_in_iter by blast
    with assms have "\<not> startswith (tag e) ''{''" by blast
    with e(2) show False by (simp add: path_tag_def startswith_def)
  qed
  then show ?thesis by (simp add: find_identical_translations_def)
qed

text \<open>
  Claim C8, that every operation gives the same result for a document with and without
  a namespace declaration, holds of snapshot resolution, comparison, extraction and
  the list-length rule (the lemmas above) and not of the detection of identical
  translations: \<^verbatim>\<open>find_identical_translations\<close> looks for tags of the one namespace
  \<^verbatim>\<open>urn:oasis:names:tc:xliff:document:1.2\<close> and never reads the root's tag.  On the
  export without a namespace, and on the same export in another namespace, it finds
  no unit and reports nothing; on the same export in the namespace of XLIFF 1.2 it
  reports three records.  The list-length rule gives the same two records for its
  example document with and without a namespace.
\<close>

theorem identical_translations_namespace_bound:
  "find_identical_translations (Some ex_export) = Inr [] \<and>
   find_identical_translations (Some (qualify ''urn:other'' ex_export)) = Inr [] \<and>
   find_identical_translations (Some (qualify xliff_ns ex_export)) =
     Inr [ex_rec_bird, ex_rec_fish, ex_rec_colours] \<and>
   comma_lists (Some ex_lists) = Inr ([ex_longer], [ex_shorter]) \<and>
   comma_lists (Some (qualify ''urn:other'' ex_lists)) = Inr ([ex_longer], [ex_shorter])"
proof -
  have "find_identical_translations (Some ex_export) = Inr []"
    by (simp add: find_identical_translations_def identical_defs ex_defs el_defs str_defs)
  moreover have "find_identical_translations (Some (qualify ''urn:other'' ex_export)) = Inr []"
    by (simp add: find_identical_translations_def identical_defs ex_defs el_defs str_defs)
  moreover have "comma_lists (Some (qualify ''urn:other'' ex_lists)) =
      Inr ([ex_longer], [ex_shorter])"
    by (simp add: comma_lists_def comma_step_def unit_id_of_def abbr_source_of_def
        target_state_of_def ex_longer_def ex_shorter_def ex_defs el_defs str_defs Let_def)
  ultimately show ?thesis
    using ex_export_ns_results ex_lists_result by (simp add: ex_export_ns_def)
qed

section \<open>Groups that lack a field\<close>

lemma detect_ns_wf:
  assumes "wf_root root"
  obtains ns use_ns where "detect_ns default_uri root = Inr (ns, use_ns)"
proof (cases "startswith (tag root) ''{''")
  case False
  then have "detect_ns default_uri root = Inr (default_uri, False)"
    by (simp add: detect_ns_def)
  then show ?thesis by (rule that)
next
  case True
  with assms have "CHR ''}'' \<in> set (tag root)" by (simp add: wf_root_def)
  moreover have "index_of c s \<noteq> None" if "c \<in> set s" for c s
    using that by (induction s) auto
  ultimately obtain i where "index_of CHR ''}'' (tag root) = Some i" by blast
  with True have "detect_ns default_uri root = Inr (take (i - 1) (drop 1 (tag root)), True)"
    by (simp add: detect_ns_def)
  then show ?thesis by (rule that)
qed

lemma match_loop_found:
  "found (foldl (match_step ns use_ns pt) st us) \<longleftrightarrow>
     found st \<or> list_ex (\<lambda>u. pattern_search pt (get_default u ''id'' '''')) us"
  by (induction us arbitrary: st) (auto simp add: match_step_def Let_def)

lemma extract_step_found:
  "found (foldl (match_step ns use_ns pt) match_init (collect_trans_units ns use_ns grp)) \<longleftrightarrow>
     has_match ns use_ns pt grp"
  by (simp add: match_loop_found has_match_def match_init_def)

lemma extract_step_append:
  "extract_step ns use_ns pt acc grp =
     (fst acc @ fst (extract_step ns use_ns pt ([], 0) grp),
      snd acc + snd (extract_step ns use_ns pt ([], 0) grp))"
  by (simp add: extract_step_def Let_def)

lemma extract_step_length:
  "length (fst (extract_step ns use_ns pt ([], 0) grp)) =
     (if has_match ns use_ns pt grp then 1 else 0)"
  using extract_step_found [of ns use_ns pt grp]
  by (simp add: extract_step_def Let_def)

lemma extract_step_missing:
  "snd (extract_step ns use_ns pt ([], 0) grp) = (if has_match ns use_ns pt grp then 0 else 1)"
  using extract_step_found [of ns use_ns pt grp]
  by (simp add: extract_step_def Let_def)

lemma extract_loop:
  "foldl (extract_step ns use_ns pt) acc gs =
     (fst acc @ concat (map (\<lambda>g. fst (extract_step ns use_ns pt ([], 0) g)) gs),
      snd acc + length (filter (\<lambda>g. \<not> has_match ns use_ns pt g) gs))"
proof (induction gs arbitrary: acc)
  case Nil
  show ?case by simp
next
  case (Cons g gs)
  have "foldl (extract_step ns use_ns pt) acc (g # gs) =
      foldl (extract_step ns use_ns pt) (extract_step ns use_ns pt acc g) gs"
    by simp
  also have "\<dots> =
     (fst (extract_step ns use_ns pt acc g) @
        concat (map (\<lambda>g. fst (extract_step ns use_ns pt ([], 0) g)) gs),
      snd (extract_step ns use_ns pt acc g) +
        length (filter (\<lambda>g. \<not> has_match ns use_ns pt g) gs))"
    by (rule Cons.IH)
  also have "extract_step ns use_ns pt acc g =
     (fst acc @ fst (extract_step ns use_ns pt ([], 0) g),
      snd acc + snd (extract_step ns use_ns pt ([], 0) g))"
    by (rule extract_step_append)
  finally show ?case by (simp add: extract_step_missing)
qed

lemma concat_singletons_length:
  assumes "\<And>x. length (f x) = (if P x then 1 else 0)"
  shows "length (concat (map f xs)) = length (filter P xs)"
  by (induction xs) (simp_all add: assms)

lemma concat_skip_empty:
  assumes "\<And>x. \<not> P x \<Longrightarrow> f x = []"
  shows "concat (map f xs) = concat (map f (filter P xs))"
  by (induction xs) (simp_all add: assms)

lemma list_ex_set: "list_ex P xs \<longleftrightarrow> (\<exists>x \<in> set xs. P x)"
  by (induction xs) auto

lemma resolve_group_no_Name:
  assumes "\<not> has_field ns use_ns ''_Name'' grp"
  shows "name_source (resolve_group ns use_ns grp) = '''' \<and>
         name_target (resolve_group ns use_ns grp) = '''' \<and>
         name_target_state (resolve_group ns use_ns grp) = ''''"
proof -
  let ?P = "\<lambda>gd::group_data. name_source gd = '''' \<and> name_target gd = '''' \<and> name_target_state gd = ''''"
  have "?P (foldl (resolve_step ns use_ns) empty_group_data (collect_trans_units ns use_ns grp))"
  proof (rule foldl_invariant)
    show "?P empty_group_data" by (simp add: empty_group_data_def)
  next
    fix gd u
    assume gd: "?P gd" and u: "u \<in> set (collect_trans_units ns use_ns grp)"
    from assms u have "\<not> endswith (get_default u ''id'' '''') ''_Name''"
      by (auto simp add: has_field_def list_ex_set)
    with gd show "?P (resolve_step ns use_ns gd u)"
      by (simp add: resolve_step_def Let_def)
  qed
  then show ?thesis by (simp add: resolve_group_def)
qed

lemma resolve_group_no_Desc:
  assumes "\<not> has_field ns use_ns ''_Desc_0'' grp"
  shows "desc_source (resolve_group ns use_ns grp) = '''' \<and>
         desc_target (resolve_group ns use_ns grp) = '''' \<and>
         desc_target_state (resolve_group ns use_ns grp) = ''''"
proof -
  let ?P = "\<lambda>gd::group_data. desc_source gd = '''' \<and> desc_target gd = '''' \<and> desc_target_state gd = ''''"
  have "?P (foldl (resolve_step ns use_ns) empty_group_data (collect_trans_units ns use_ns grp))"
  proof (rule foldl_invariant)
    show "?P empty_group_data" by (simp add: empty_group_data_def)
  next
    fix gd u
    assume gd: "?P gd" and u: "u \<in> set (collect_trans_units ns use_ns grp)"
    from assms u have "\<not> endswith (get_default u ''id'' '''') ''_Desc_0''"
      by (auto simp add: has_field_def list_ex_set)
    with gd show "?P (resolve_step ns use_ns gd u)"
      by (simp add: resolve_step_def Let_def)
  qed
  then show ?thesis by (simp add: resolve_group_def)
qed

lemma resolve_group_no_Abbr:
  assumes "\<not> has_field ns use_ns ''_Abbr'' grp"
  shows "abbr (resolve_group ns use_ns grp) = ''''"
proof -
  let ?P = "\<lambda>gd::group_data. abbr gd = ''''"
  have "?P (foldl (resolve_step ns use_ns) empty_group_data (collect_trans_units ns use_ns grp))"
  proof (rule foldl_invariant)
    show "?P empty_group_data" by (simp add: empty_group_data_def)
  next
    fix gd u
    assume gd: "?P gd" and u: "u \<in> set (collect_trans_units ns use_ns grp)"
    from assms u have "\<not> endswith (get_default u ''id'' '''') ''_Abbr''"
      by (auto simp add: has_field_def list_ex_set)
    with gd show "?P (resolve_step ns use_ns gd u)"
      by (simp add: resolve_step_def Let_def)
  qed
  then show ?thesis by (simp add: resolve_group_def)
qed

text \<open>
  Claim C9.  For a document whose root the parser returned, snapshot resolution and
  single-field extraction both return a result.  Every entry of the snapshot holds the
  resolved fields of one of the document's semantic domain groups, and a group without
  an abbreviation, a name or a description unit has the empty string in the fields of
  what it lacks.  The extraction gives one row for each group that has the element
  looked for, in document order, skips the others, and counts the skipped groups.
  Both operations fail when the parse fails.
\<close>

theorem structural_absence_nonfatal:
  assumes "wf_root root"
  shows "\<exists>ns use_ns data order rows missing.
     detect_ns ''http://www.w3.org/2001/xliff'' root = Inr (ns, use_ns) \<and>
     parse_xlf_file (Some root) = Inr (data, order) \<and>
     order = map group_id_of (target_groups ns use_ns root) \<and>
     (\<forall>g d. data g = Some d \<longrightarrow>
        (\<exists>grp \<in> set (target_groups ns use_ns root).
           group_id_of grp = g \<and> d = resolve_group ns use_ns grp)) \<and>
     (\<forall>grp. \<not> has_field ns use_ns ''_Abbr'' grp \<longrightarrow> abbr (resolve_group ns use_ns grp) = '''') \<and>
     (\<forall>grp. \<not> has_field ns use_ns ''_Name'' grp \<longrightarrow>
        name_source (resolve_group ns use_ns grp) = '''' \<and>
        name_target (resolve_group ns use_ns grp) = '''' \<and>
        name_target_state (resolve_group ns use_ns grp) = '''') \<and>
     (\<forall>grp. \<not> has_field ns use_ns ''_Desc_0'' grp \<longrightarrow>
        desc_source (resolve_group ns use_ns grp) = '''' \<and>
        desc_target (resolve_group ns use_ns grp) = '''' \<and>
        desc_target_state (resolve_group ns use_ns grp) = '''') \<and>
     extract_data (Some root) pt = Inr (rows, missing) \<and>
     rows = concat (map (\<lambda>g. fst (extract_step ns use_ns pt ([], 0) g))
              (filter (has_match ns use_ns pt) (target_groups ns use_ns root))) \<and>
     length rows = length (filter (has_match ns use_ns pt) (target_groups ns use_ns root)) \<and>
     missing = length (filter (\<lambda>g. \<not> has_match ns use_ns pt g) (target_groups ns use_ns root)) \<and>
     parse_xlf_file None = Inl ParseFailure \<and>
     extract_data None pt = Inl ParseFailure"
proof -
  from assms obtain ns use_ns where
    d: "detect_ns ''http://www.w3.org/2001/xliff'' root = Inr (ns, use_ns)"
    by (rule detect_ns_wf)
  let ?gs = "target_groups ns use_ns root"
  define snap where "snap = foldl (parse_step ns use_ns) (Map.empty, []) ?gs"
  define rows where
    "rows = concat (map (\<lambda>g. fst (extract_step ns use_ns pt ([], 0) g)) ?gs)"
  define missing where "missing = length (filter (\<lambda>g. \<not> has_match ns use_ns pt g) ?gs)"
  have p: "parse_xlf_file (Some root) = Inr (fst snap, snd snap)"
    using d by (simp add: parse_xlf_file_def snap_def)
  have ord: "snd snap = map group_id_of ?gs"
    by (simp add: snap_def parse_loop_order)
  have look: "\<forall>g d. fst snap g = Some d \<longrightarrow>
      (\<exists>grp \<in> set ?gs. group_id_of grp = g \<and> d = resolve_group ns use_ns grp)"
    using parse_loop_lookup [of ns use_ns "(Map.empty, [])" ?gs]
    by (auto simp add: snap_def)
  have e: "extract_data (Some root) pt = Inr (rows, missing)"
    using d by (simp add: extract_data_def extract_loop rows_def missing_def)
  have rows_filter: "rows = concat (map (\<lambda>g. fst (extract_step ns use_ns pt ([], 0) g))
              (filter (has_match ns use_ns pt) ?gs))"
    unfolding rows_def
  proof (rule concat_skip_empty)
    fix g
    assume "\<not> has_match ns use_ns pt g"
    then show "fst (extract_step ns use_ns pt ([], 0) g) = []"
      using extract_step_length [of ns use_ns pt g] by simp
  qed
  have rows_len: "length rows = length (filter (has_match ns use_ns pt) ?gs)"
    unfolding rows_def by (rule concat_singletons_length) (rule extract_step_length)
  have fails: "parse_xlf_file None = Inl ParseFailure" "extract_data None pt = Inl ParseFailure"
    by (simp_all add: parse_xlf_file_def extract_data_def)
  from d p ord look e rows_filter rows_len fails missing_def
    resolve_group_no_Abbr resolve_group_no_Name resolve_group_no_Desc
  show ?thesis by blast
qed

text \<open>
  Of three groups the second has no name: its name fields are empty in the snapshot,
  and the extraction of names gives the rows of the first and the third group and the
  count one.
\<close>

lemma ex_missing_snapshot:
  "parse_xlf_file (Some ex_missing) = Inr (ex_missing_data, [''1'', ''2'', ''3''])"
  by (simp add: parse_defs ex_defs el_defs str_defs ex_missing_data_def ex_gd_def)

lemma ex_missing_rows:
  "extract_data (Some ex_missing) PT_name =
     Inr ([[''1'', ''Universe'', ''Universo''], [''3'', ''Language'', ''Lingua'']], 1)"
  by (simp add: extract_data_def extract_step_def match_step_def match_init_def
        abbr_text_of_def search_suffix_def target_groups_def has_guid_def
        collect_trans_units_def collect_step_def ex_defs el_defs str_defs Let_def)

theorem structural_absence_nonfatal_witness:
  "wf_root ex_missing \<and>
   parse_xlf_file (Some ex_missing) = Inr (ex_missing_data, [''1'', ''2'', ''3'']) \<and>
   ex_missing_data ''2'' = Some (resolve_group ''http://www.w3.org/2001/xliff'' False ex_missing_group) \<and>
   \<not> has_field ''http://www.w3.org/2001/xliff'' False ''_Name'' ex_missing_group \<and>
   name_source (resolve_group ''http://www.w3.org/2001/xliff'' False ex_missing_group) = '''' \<and>
   \<not> has_match ''http://www.w3.org/2001/xliff'' False PT_name ex_missing_group \<and>
   extract_data (Some ex_missing) PT_name =
     Inr ([[''1'', ''Universe'', ''Universo''], [''3'', ''Language'', ''Lingua'']], 1) \<and>
   (\<exists>ns use_ns data order rows missing.
     detect_ns ''http://www.w3.org/2001/xliff'' ex_missing = Inr (ns, use_ns) \<and>
     parse_xlf_file (Some ex_missing) = Inr (data, order) \<and>
     extract_data (Some ex_missing) PT_name = Inr (rows, missing) \<and>
     length rows = length (filter (has_match ns use_ns PT_name) (target_groups ns use_ns ex_missing)) \<and>
     missing =
       length (filter (\<lambda>g. \<not> has_match ns use_ns PT_name g) (target_groups ns use_ns ex_missing)))"
proof -
  have wf: "wf_root ex_missing"
    by (simp add: wf_root_def ex_defs startswith_def)
  have facts:
    "ex_missing_data ''2'' =
       Some (resolve_group ''http://www.w3.org/2001/xliff'' False ex_missing_group)"
    "\<not> has_field ''http://www.w3.org/2001/xliff'' False ''_Name'' ex_missing_group"
    "\<not> has_match ''http://www.w3.org/2001/xliff'' False PT_name ex_missing_group"
    by (simp_all add: ex_missing_data_def ex_gd_def ex_missing_group_def has_field_def
          has_match_def search_suffix_def resolve_group_def resolve_step_def
          collect_trans_units_def collect_step_def target_state_of_def empty_group_data_def
          ex_defs el_defs str_defs Let_def)
  have empty: "name_source (resolve_group ''http://www.w3.org/2001/xliff'' False ex_missing_group) = ''''"
    using resolve_group_no_Name [OF facts(2)] by simp
  from structural_absence_nonfatal [OF wf, of PT_name]
  have "\<exists>ns use_ns data order rows missing.
     detect_ns ''http://www.w3.org/2001/xliff'' ex_missing = Inr (ns, use_ns) \<and>
     parse_xlf_file (Some ex_missing) = Inr (data, order) \<and>
     extract_data (Some ex_missing) PT_name = Inr (rows, missing) \<and>
     length rows = length (filter (has_match ns use_ns PT_name) (target_groups ns use_ns ex_missing)) \<and>
     missing =
       length (filter (\<lambda>g. \<not> has_match ns use_ns PT_name g) (target_groups ns use_ns ex_missing))"
    by blast
  with wf facts empty ex_missing_snapshot ex_missing_rows show ?thesis by blast
qed

end
